theory Spec2Isabelle
  imports Complex_Main "HOL-Library.AList"
begin

section \<open>JavaScript strings\<close>

text \<open>
  A string is a list of characters. \<open>toLowerCase\<close> is modelled on the ASCII letters,
  which is all that HTTP header names, methods and the error words of the gateway use.
\<close>

definition lower_char :: "char \<Rightarrow> char" where
  "lower_char c =
     (case map_of (zip ''ABCDEFGHIJKLMNOPQRSTUVWXYZ'' ''abcdefghijklmnopqrstuvwxyz'') c of
        Some l \<Rightarrow> l
      | None \<Rightarrow> c)"

definition toLowerCase :: "string \<Rightarrow> string" where
  "toLowerCase s = map lower_char s"

text \<open>\<open>s.startsWith(p)\<close>\<close>

fun startsWith :: "string \<Rightarrow> string \<Rightarrow> bool" where
  "startsWith s [] = True"
| "startsWith [] (p # ps) = False"
| "startsWith (c # cs) (p # ps) = (c = p \<and> startsWith cs ps)"

text \<open>\<open>s.includes(sub)\<close>\<close>

fun str_includes :: "string \<Rightarrow> string \<Rightarrow> bool" where
  "str_includes [] sub = (sub = [])"
| "str_includes (c # cs) sub = (startsWith (c # cs) sub \<or> str_includes cs sub)"

section \<open>The Headers object\<close>

text \<open>
  A \<open>Headers\<close> object keeps one value per lower-cased name: an association list whose
  keys are lower case. \<open>set\<close> replaces the value of a name or adds the name, \<open>get\<close>
  and \<open>has\<close> look the lower-cased name up, \<open>delete\<close> removes it.
\<close>

type_synonym headers = "(string \<times> string) list"

definition hget :: "headers \<Rightarrow> string \<Rightarrow> string option" where
  "hget hs k = map_of hs (toLowerCase k)"

definition hhas :: "headers \<Rightarrow> string \<Rightarrow> bool" where
  "hhas hs k = (hget hs k \<noteq> None)"

definition hset :: "headers \<Rightarrow> string \<Rightarrow> string \<Rightarrow> headers" where
  "hset hs k v = AList.update (toLowerCase k) v hs"

definition hdelete :: "headers \<Rightarrow> string \<Rightarrow> headers" where
  "hdelete hs k = AList.delete (toLowerCase k) hs"

text \<open>\<open>for (const [key, value] of entries) headers.set(key, value)\<close>\<close>

definition hset_all :: "headers \<Rightarrow> (string \<times> string) list \<Rightarrow> headers" where
  "hset_all hs entries = foldl (\<lambda>h (k, v). hset h k v) hs entries"

section \<open>Configuration (config.ts)\<close>

record ProxyConfig =
  host :: string
  basePath :: "string option"
  timeout :: "int option"
  maxRetries :: "int option"
  maxResponseSize :: "int option"
  retryableMethods :: "string list option"
  defaultHeaders :: "(string \<times> string) list option"
  supportsStreaming :: "bool option"
  allowFallback :: "bool option"
  retryable :: "bool option"

text \<open>The process environment as \<open>ENV\<close> reads it once at start-up.\<close>

record Env =
  ALLOWED_ORIGIN :: string
  DEFAULT_TIMEOUT :: int
  BACKGROUND_TIMEOUT :: int
  MAX_RESPONSE_SIZE :: int
  ENABLE_RETRY :: bool
  ENABLE_FALLBACK :: bool

definition ALLOWED_REQUEST_HEADERS :: "string list" where
  "ALLOWED_REQUEST_HEADERS =
     [''content-type'', ''content-length'', ''accept'', ''accept-encoding'',
      ''accept-language'', ''authorization'', ''user-agent'', ''referer'', ''origin'',
      ''x-api-key'', ''x-goog-api-key'', ''api-key'',
      ''anthropic-version'', ''anthropic-beta'', ''openai-beta'', ''openai-organization'',
      ''x-stainless-arch'', ''x-stainless-lang'', ''x-stainless-os'',
      ''x-stainless-package-version'', ''x-stainless-runtime'',
      ''x-stainless-runtime-version'']"

definition BLOCKED_REQUEST_HEADERS :: "string list" where
  "BLOCKED_REQUEST_HEADERS =
     [''host'', ''connection'', ''cf-connecting-ip'', ''cf-ray'', ''x-forwarded-for'',
      ''x-real-ip'', ''cookie'', ''set-cookie'']"

definition LONG_RUNNING_PATHS :: "string list" where
  "LONG_RUNNING_PATHS =
     [''/v1/audio/transcriptions'', ''/v1/audio/translations'', ''/v1/images/generations'',
      ''/v1/images/edits'', ''/v1/images/variations'', ''/v1/embeddings'',
      ''/v1/fine-tunes'', ''/v1/fine_tuning/jobs'', ''/v1/files'', ''/v1/batches'']"

definition STREAMING_PATHS :: "string list" where
  "STREAMING_PATHS =
     [''/v1/chat/completions'', ''/v1/completions'', ''/v1/messages'', ''/v1/realtime'',
      ''/v1/engines'', ''/v1/responses'']"

section \<open>Header sanitizer (utils.ts)\<close>

definition isAllowedHeader :: "string \<Rightarrow> bool" where
  "isAllowedHeader headerName =
     (let lower = toLowerCase headerName in
      if lower \<in> set BLOCKED_REQUEST_HEADERS then False
      else if lower \<in> set ALLOWED_REQUEST_HEADERS then True
      else startsWith lower ''x-'' \<and> \<not> startsWith lower ''x-forwarded''
           \<and> \<not> startsWith lower ''x-real'')"

definition forward_client :: "headers \<Rightarrow> (string \<times> string) list \<Rightarrow> headers" where
  "forward_client hs clientHeaders =
     foldl (\<lambda>h (k, v). if isAllowedHeader k then hset h k v else h) hs clientHeaders"

definition buildForwardHeaders :: "(string \<times> string) list \<Rightarrow> ProxyConfig \<Rightarrow> headers" where
  "buildForwardHeaders clientHeaders proxy =
     (let h0 = (case defaultHeaders proxy of None \<Rightarrow> [] | Some d \<Rightarrow> hset_all [] d);
          h1 = forward_client h0 clientHeaders;
          h2 = (if \<not> hhas h1 ''user-agent''
                then hset h1 ''User-Agent'' ''Mozilla/5.0 (compatible; API Gateway/1.0)''
                else h1)
      in hdelete (hdelete h2 ''host'') ''connection'')"

text \<open>The names that the provider's default headers put into the outbound set.\<close>

definition default_names :: "ProxyConfig \<Rightarrow> string set" where
  "default_names proxy =
     (case defaultHeaders proxy of None \<Rightarrow> {} | Some d \<Rightarrow> toLowerCase ` fst ` set d)"

section \<open>More string operations\<close>

text \<open>\<open>s.split(d)\<close> for a one-character separator: \<open>''.split('/')\<close> is \<open>['']\<close>.\<close>

fun split_on :: "char \<Rightarrow> string \<Rightarrow> string list" where
  "split_on d [] = [[]]"
| "split_on d (c # cs) =
     (if c = d then [] # split_on d cs
      else (case split_on d cs of r # rs \<Rightarrow> (c # r) # rs | [] \<Rightarrow> [[c]]))"

text \<open>\<open>parts.join(sep)\<close>\<close>

fun join_with :: "string \<Rightarrow> string list \<Rightarrow> string" where
  "join_with sep [] = []"
| "join_with sep [x] = x"
| "join_with sep (x # y # ys) = x @ sep @ join_with sep (y # ys)"

text \<open>\<open>s.replace(pat, rep)\<close> with a string pattern: the first occurrence only.\<close>

fun replace_first :: "string \<Rightarrow> string \<Rightarrow> string \<Rightarrow> string" where
  "replace_first pat rep [] = (if pat = [] then rep else [])"
| "replace_first pat rep (c # cs) =
     (if startsWith (c # cs) pat then rep @ drop (length pat) (c # cs)
      else c # replace_first pat rep cs)"

text \<open>
  \<open>encodeURIComponent\<close> on a string of bytes: the unreserved characters stay, every other
  byte becomes \<open>%XX\<close> with upper-case hexadecimal digits.
\<close>

definition uri_unreserved :: "char \<Rightarrow> bool" where
  "uri_unreserved c =
     (c \<in> set (''ABCDEFGHIJKLMNOPQRSTUVWXYZabcdefghijklmnopqrstuvwxyz0123456789-_.!~*()''
                @ [CHR 0x27]))"

definition hex_digit :: "nat \<Rightarrow> char" where
  "hex_digit n = ''0123456789ABCDEF'' ! (n mod 16)"

definition encode_char :: "char \<Rightarrow> string" where
  "encode_char c =
     (if uri_unreserved c then [c]
      else [CHR ''%'', hex_digit (of_char c div 16), hex_digit (of_char c mod 16)])"

definition encodeURIComponent :: "string \<Rightarrow> string" where
  "encodeURIComponent s = concat (map encode_char s)"

text \<open>\<open>s.replace(/%3A/gi, ':')\<close>\<close>

fun replace_colon :: "string \<Rightarrow> string" where
  "replace_colon (a # b # c # rest) =
     (if a = CHR ''%'' \<and> b = CHR ''3'' \<and> (c = CHR ''A'' \<or> c = CHR ''a'')
      then CHR '':'' # replace_colon rest
      else a # replace_colon (b # c # rest))"
| "replace_colon s = s"

text \<open>\<open>s.replace(/^\/|\/$/g, '')\<close>: one leading and one trailing slash are removed.\<close>

definition strip_slashes :: "string \<Rightarrow> string" where
  "strip_slashes s =
     (let s1 = (case s of [] \<Rightarrow> [] | c # cs \<Rightarrow> if c = CHR ''/'' then cs else s)
      in if s1 \<noteq> [] \<and> last s1 = CHR ''/'' then butlast s1 else s1)"

text \<open>The decimal digits of a number, as a template literal prints it.\<close>

function string_of_nat :: "nat \<Rightarrow> string" where
  "string_of_nat n =
     (if n < 10 then [''0123456789'' ! n]
      else string_of_nat (n div 10) @ [''0123456789'' ! (n mod 10)])"
  by pat_completeness auto
termination
  by (relation "measure id") auto

text \<open>\<open>a || b\<close> on an optional number and on an optional string: zero, the empty string
  and \<open>undefined\<close> are falsy.\<close>

definition js_or_num :: "int option \<Rightarrow> int \<Rightarrow> int" where
  "js_or_num a b = (case a of None \<Rightarrow> b | Some v \<Rightarrow> if v = 0 then b else v)"

definition js_or_str :: "string option \<Rightarrow> string \<Rightarrow> string" where
  "js_or_str a b = (case a of None \<Rightarrow> b | Some s \<Rightarrow> if s = [] then b else s)"

section \<open>Paths and upstream URL (utils.ts)\<close>

definition encode_segment :: "string \<Rightarrow> string" where
  "encode_segment seg =
     join_with ''/'' (map (\<lambda>s. replace_colon (encodeURIComponent s)) (split_on CHR ''/'' seg))"

definition sanitizePath :: "string list \<Rightarrow> string" where
  "sanitizePath parts =
     join_with ''/''
       (map encode_segment (filter (\<lambda>seg. seg \<noteq> [] \<and> seg \<noteq> ''.'' \<and> seg \<noteq> ''..'') parts))"

definition buildUpstreamURL :: "string \<Rightarrow> string option \<Rightarrow> string \<Rightarrow> string \<Rightarrow> string" where
  "buildUpstreamURL h base userPath search =
     (let cleanBase = (case base of None \<Rightarrow> [] | Some b \<Rightarrow> strip_slashes b);
          cleanUser = strip_slashes userPath;
          fullPath = join_with ''/'' (filter (\<lambda>s. s \<noteq> []) [cleanBase, cleanUser])
      in ''https://'' @ h @ (if fullPath \<noteq> [] then ''/'' @ fullPath else []) @ search)"

text \<open>\<open>pathname.split('/').filter(Boolean)\<close>\<close>

definition path_segments :: "string \<Rightarrow> string list" where
  "path_segments p = filter (\<lambda>s. s \<noteq> []) (split_on CHR ''/'' p)"

section \<open>Streaming response governor (middleware.ts, createSizeLimitedStream)\<close>

text \<open>
  The closure variables of one transform stream, and the readable side its controller
  writes to: the chunks enqueued so far and the error the stream was put into, if any.
  The error's JSON text carries the two sizes, the type \<open>response_size_exceeded\<close>, the
  code 413 and the request id; the model keeps the sizes and the id.
\<close>

record StreamBudget =
  totalBytes :: nat
  aborted :: bool

datatype stream_error = ResponseSizeExceeded nat int string

record readable =
  enqueued :: "string list"
  errored :: "stream_error option"

definition transform :: "int \<Rightarrow> string \<Rightarrow> StreamBudget \<times> readable \<Rightarrow> string
    \<Rightarrow> StreamBudget \<times> readable" where
  "transform maxSize reqId sc chunk =
     (let st = fst sc; ctl = snd sc in
      if aborted st then (st, ctl)
      else
        (let total = totalBytes st + length chunk in
         if int total > maxSize
         then (\<lparr>totalBytes = total, aborted = True\<rparr>,
               ctl\<lparr>errored := Some (ResponseSizeExceeded total maxSize reqId)\<rparr>)
         else (\<lparr>totalBytes = total, aborted = False\<rparr>,
               ctl\<lparr>enqueued := enqueued ctl @ [chunk]\<rparr>)))"

text \<open>A body piped through a fresh transform stream: the chunks are fed in order.\<close>

definition feed :: "int \<Rightarrow> string \<Rightarrow> StreamBudget \<times> readable \<Rightarrow> string list
    \<Rightarrow> StreamBudget \<times> readable" where
  "feed maxSize reqId sc chunks = foldl (transform maxSize reqId) sc chunks"

definition createSizeLimitedStream :: "int \<Rightarrow> string \<Rightarrow> string list \<Rightarrow> StreamBudget \<times> readable" where
  "createSizeLimitedStream maxSize reqId chunks =
     feed maxSize reqId
       (\<lparr>totalBytes = 0, aborted = False\<rparr>, \<lparr>enqueued = [], errored = None\<rparr>) chunks"

text \<open>The cumulative size of the first \<open>n\<close> chunks.\<close>

definition bytes_upto :: "string list \<Rightarrow> nat \<Rightarrow> nat" where
  "bytes_upto chunks n = sum_list (map length (take n chunks))"

section \<open>The world outside one request\<close>

text \<open>
  What the gateway cannot compute is an input of the model: the outcome of each outbound
  call (a response, or a rejection with an error, which is also how an abort signal that
  fires shows), the values \<open>Math.random()\<close> returns, the formatted elapsed time, a fresh
  UUID and the built-in \<open>parseInt\<close> (\<open>None\<close> is \<open>NaN\<close>).
\<close>

datatype js_error = JsError (err_name: string) (err_message: string)

record upstream_response =
  rstatus :: nat
  rstatusText :: string
  rheaders :: headers
  rbody :: "string list option"

datatype outcome = Resolves upstream_response | Rejects js_error

record world =
  w_upstream :: "nat \<Rightarrow> outcome"
  w_random :: "nat \<Rightarrow> real"
  w_background :: outcome
  w_elapsed :: string
  w_uuid :: string
  w_parseInt :: "string \<Rightarrow> int option"

text \<open>An outbound request with the deadline of its abort signal, in milliseconds.\<close>

record outbound =
  out_method :: string
  out_url :: string
  out_headers :: headers
  out_deadline :: int

datatype event = Fetch outbound | Delay real

fun is_fetch :: "event \<Rightarrow> bool" where
  "is_fetch (Fetch r) = True"
| "is_fetch (Delay d) = False"

text \<open>The delays of a trace, in the order they were slept.\<close>

fun delays :: "event list \<Rightarrow> real list" where
  "delays [] = []"
| "delays (Fetch r # evs) = delays evs"
| "delays (Delay d # evs) = d # delays evs"

definition attempts :: "event list \<Rightarrow> nat" where
  "attempts evs = length (filter is_fetch evs)"

text \<open>
  The delay slept immediately before outbound attempt \<open>n\<close> of a trace (attempts counted
  from 0), if there is one: the scan remembers the delay seen since the last outbound call.
\<close>

fun delay_scan :: "real option \<Rightarrow> event list \<Rightarrow> nat \<Rightarrow> real option" where
  "delay_scan slept [] n = None"
| "delay_scan slept (Delay d # evs) n = delay_scan (Some d) evs n"
| "delay_scan slept (Fetch r # evs) 0 = slept"
| "delay_scan slept (Fetch r # evs) (Suc n) = delay_scan None evs n"

definition delay_before :: "event list \<Rightarrow> nat \<Rightarrow> real option" where
  "delay_before evs n = delay_scan None evs n"

section \<open>Upstream executor (middleware.ts, fetchWithRetry)\<close>

text \<open>
  \<open>baseDelay = Math.min(100 * Math.pow(2, attempt), 5000)\<close>,
  \<open>jitter = baseDelay * 0.3 * (Math.random() - 0.5)\<close>,
  \<open>delay = Math.max(baseDelay + jitter, 100)\<close>, over the real numbers: the rounding of
  the floating-point operations is not modelled.
\<close>

definition baseDelay :: "nat \<Rightarrow> real" where
  "baseDelay attempt = min (100 * 2 ^ attempt) 5000"

definition backoffDelay :: "nat \<Rightarrow> real \<Rightarrow> real" where
  "backoffDelay attempt r =
     (let jitter = baseDelay attempt * 0.3 * (r - 0.5)
      in max (baseDelay attempt + jitter) 100)"

definition retryableErrors :: "string list" where
  "retryableErrors =
     [''timeout'', ''network'', ''connection'', ''fetch'', ''econnreset'', ''etimedout'']"

definition retryable_message :: "string \<Rightarrow> bool" where
  "retryable_message msg =
     list_ex (\<lambda>e. str_includes (toLowerCase msg) e) retryableErrors"

definition server_error :: "upstream_response \<Rightarrow> js_error" where
  "server_error r =
     JsError ''Error''
       (''Server error: '' @ string_of_nat (rstatus r) @ '' '' @ rstatusText r)"

definition prepend :: "event list \<Rightarrow> event list \<times> 'a \<Rightarrow> event list \<times> 'a" where
  "prepend evs r = (evs @ fst r, snd r)"

text \<open>
  The loop \<open>for (attempt = 0; attempt <= maxRetries; attempt++)\<close> from the iteration
  \<open>attempt\<close> on, with the \<open>lastError\<close> it holds. The result is the trace of outbound
  calls and delays, and the response returned or the error thrown.
\<close>

function retry_loop :: "int \<Rightarrow> outbound \<Rightarrow> world \<Rightarrow> nat \<Rightarrow> js_error option
    \<Rightarrow> event list \<times> (js_error + upstream_response)" where
  "retry_loop maxR request w attempt lastError =
     (if int attempt \<le> maxR then
        (case w_upstream w attempt of
           Resolves response \<Rightarrow>
             if rstatus response \<ge> 500 \<and> int attempt < maxR
             then prepend [Fetch request, Delay (backoffDelay attempt (w_random w attempt))]
                    (retry_loop maxR request w (Suc attempt) (Some (server_error response)))
             else ([Fetch request], Inr response)
         | Rejects error \<Rightarrow>
             if int attempt = maxR then ([Fetch request], Inl error)
             else if \<not> retryable_message (err_message error) then ([Fetch request], Inl error)
             else prepend [Fetch request, Delay (backoffDelay attempt (w_random w attempt))]
                    (retry_loop maxR request w (Suc attempt) (Some error)))
      else
        ([], Inl (case lastError of
                    Some e \<Rightarrow> e
                  | None \<Rightarrow> JsError ''Error'' ''Request failed after retries'')))"
  by pat_completeness auto
termination
  by (relation "measure (\<lambda>(maxR, request, w, attempt, lastError). nat (maxR + 1 - int attempt))")
     auto

declare retry_loop.simps [simp del]

definition fetchWithRetry :: "outbound \<Rightarrow> int \<Rightarrow> string list option \<Rightarrow> world
    \<Rightarrow> event list \<times> (js_error + upstream_response)" where
  "fetchWithRetry request maxR methods w =
     (let retryable_methods =
            (case methods of None \<Rightarrow> [''GET'', ''HEAD'', ''OPTIONS''] | Some ms \<Rightarrow> ms)
      in if maxR \<le> 0 \<or> out_method request \<notin> set retryable_methods
         then ([Fetch request],
               case w_upstream w 0 of Resolves response \<Rightarrow> Inr response
                                    | Rejects error \<Rightarrow> Inl error)
         else retry_loop maxR request w 0 None)"

section \<open>Routing decision engine (utils.ts)\<close>

datatype json = JNull | JBool bool | JNumber int | JString string
  | JArray "json list" | JObject "(string \<times> json) list"

text \<open>
  The request body as \<open>cloned.json()\<close> reads it: a JSON value, or a failure to parse.
\<close>

datatype body_json = Unparseable | Parsed json

record request =
  req_method :: string
  url_protocol :: string
  url_host :: string
  url_pathname :: string
  url_search :: string
  url_searchParams :: "(string \<times> string) list"
  req_headers :: headers
  req_body :: "body_json option"

text \<open>
  \<open>body.stream === true\<close>: the last member named \<open>stream\<close> of an object; reading the
  property of \<open>null\<close> throws, which the \<open>catch\<close> turns into \<open>false\<close>, and any other
  value has no such property.
\<close>

fun stream_is_true :: "json \<Rightarrow> bool" where
  "stream_is_true (JObject members) = (map_of (rev members) ''stream'' = Some (JBool True))"
| "stream_is_true j = False"

definition isStreamingPath :: "string \<Rightarrow> bool" where
  "isStreamingPath pathname = list_ex (\<lambda>path. str_includes pathname path) STREAMING_PATHS"

definition accepts_event_stream :: "request \<Rightarrow> bool" where
  "accepts_event_stream req =
     (case hget (req_headers req) ''accept'' of
        None \<Rightarrow> False
      | Some accept \<Rightarrow> str_includes accept ''text/event-stream'')"

definition body_stream_flag :: "request \<Rightarrow> bool" where
  "body_stream_flag req =
     (if req_method req = ''POST'' \<and> req_body req \<noteq> None then
        (case hget (req_headers req) ''content-type'' of
           None \<Rightarrow> False
         | Some contentType \<Rightarrow>
             if str_includes contentType ''application/json''
             then (case req_body req of
                     Some (Parsed body) \<Rightarrow> stream_is_true body
                   | _ \<Rightarrow> False)
             else False)
      else False)"

definition isStreamingRequest :: "request \<Rightarrow> bool" where
  "isStreamingRequest req =
     (if map_of (url_searchParams req) ''stream'' = Some ''true'' then True
      else if accepts_event_stream req then True
      else if \<not> isStreamingPath (url_pathname req) then False
      else body_stream_flag req)"

datatype reason = MethodSuitableForEdge | StreamingRequest | LongRunningAPI
  | LargeRequestBody int | OpenAIEmbeddingsAPI | DefaultToEdge

record ForwardDecision =
  shouldForward :: bool
  why :: reason
  estimatedDuration :: "int option"

record RequestContext =
  ctx_reqId :: string
  ctx_service :: string
  ctx_method :: string
  ctx_path :: string

text \<open>\<open>contentLength && parseInt(contentLength) > limit\<close>\<close>

definition declared_size_over :: "world \<Rightarrow> string option \<Rightarrow> int \<Rightarrow> bool" where
  "declared_size_over w contentLength limit =
     (case contentLength of
        None \<Rightarrow> False
      | Some cl \<Rightarrow> cl \<noteq> [] \<and> (case w_parseInt w cl of None \<Rightarrow> False | Some n \<Rightarrow> n > limit))"

definition shouldForwardToBackground :: "world \<Rightarrow> request \<Rightarrow> ProxyConfig \<Rightarrow> RequestContext
    \<Rightarrow> ForwardDecision" where
  "shouldForwardToBackground w req proxy context =
     (if req_method req \<in> set [''GET'', ''HEAD'', ''OPTIONS'']
      then \<lparr>shouldForward = False, why = MethodSuitableForEdge, estimatedDuration = None\<rparr>
      else if isStreamingRequest req
      then \<lparr>shouldForward = False, why = StreamingRequest, estimatedDuration = None\<rparr>
      else if list_ex (\<lambda>path. str_includes (url_pathname req) path) LONG_RUNNING_PATHS
      then \<lparr>shouldForward = True, why = LongRunningAPI, estimatedDuration = Some 60000\<rparr>
      else if declared_size_over w (hget (req_headers req) ''content-length'') 1048576
      then \<lparr>shouldForward = True,
            why = LargeRequestBody
              (the (w_parseInt w (the (hget (req_headers req) ''content-length'')))),
            estimatedDuration = Some 30000\<rparr>
      else if ctx_service context = ''openai'' \<and> str_includes (url_pathname req) ''/v1/embeddings''
      then \<lparr>shouldForward = True, why = OpenAIEmbeddingsAPI, estimatedDuration = Some 20000\<rparr>
      else \<lparr>shouldForward = False, why = DefaultToEdge, estimatedDuration = None\<rparr>)"

section \<open>Responses and errors (errors.ts, middleware.ts)\<close>

datatype error_type = TIMEOUT | NETWORK | DNS | CONNECTION | SSL | SIZE_LIMIT | UNKNOWN

text \<open>
  The message of an error response: a literal text, the fixed text \<open>categorizeError\<close>
  has for an error type (for \<open>UNKNOWN\<close> it quotes the error's own message), or the
  size message, which prints the declared size and the limit in megabytes.
\<close>

datatype message = Text string | CategoryText error_type string | SizeText int int

datatype detail = NoDetail | AvailableServices "string list"
  | AvailableServicesExample "string list" string | ErrorType error_type

text \<open>
  The body of a response of the gateway: the JSON envelope of \<open>createErrorResponse\<close>
  (message, request id, status, detail; the timestamp is left out), the health document,
  no body, or the body relayed from an upstream or background response, as the chunks
  that reach the caller and the error the stream ends in, if any.
\<close>

datatype response_body = ErrorJson message string nat detail | HealthJson | NoBody
  | Relayed "string list option" "stream_error option"

record response =
  res_status :: nat
  res_statusText :: string
  res_headers :: headers
  res_body :: response_body

record ErrorInfo =
  info_type :: error_type
  info_status :: nat
  info_message :: message

definition categorizeError :: "js_error \<Rightarrow> ErrorInfo" where
  "categorizeError error =
     (let msg = toLowerCase (err_message error) in
      if err_name error = ''AbortError'' \<or> str_includes msg ''timeout''
      then \<lparr>info_type = TIMEOUT, info_status = 504,
            info_message = CategoryText TIMEOUT []\<rparr>
      else if str_includes msg ''network'' \<or> str_includes msg ''fetch failed''
      then \<lparr>info_type = NETWORK, info_status = 502,
            info_message = CategoryText NETWORK []\<rparr>
      else if str_includes msg ''dns'' \<or> str_includes msg ''getaddrinfo''
      then \<lparr>info_type = DNS, info_status = 502, info_message = CategoryText DNS []\<rparr>
      else if str_includes msg ''connection refused'' \<or> str_includes msg ''econnrefused''
      then \<lparr>info_type = CONNECTION, info_status = 503,
            info_message = CategoryText CONNECTION []\<rparr>
      else if str_includes msg ''ssl'' \<or> str_includes msg ''tls''
              \<or> str_includes msg ''certificate''
      then \<lparr>info_type = SSL, info_status = 502, info_message = CategoryText SSL []\<rparr>
      else if str_includes msg ''size'' \<or> str_includes msg ''413''
      then \<lparr>info_type = SIZE_LIMIT, info_status = 413,
            info_message = CategoryText SIZE_LIMIT []\<rparr>
      else \<lparr>info_type = UNKNOWN, info_status = 500,
            info_message = CategoryText UNKNOWN (err_message error)\<rparr>)"

definition createErrorResponse :: "Env \<Rightarrow> nat \<Rightarrow> message \<Rightarrow> string \<Rightarrow> detail \<Rightarrow> response" where
  "createErrorResponse env code msg rid det =
     \<lparr>res_status = code, res_statusText = [],
      res_headers =
        hset_all []
          [(''Content-Type'', ''application/json; charset=utf-8''),
           (''X-Request-Id'', rid),
           (''Access-Control-Allow-Origin'', ALLOWED_ORIGIN env),
           (''Access-Control-Allow-Methods'', ''GET, POST, PUT, DELETE, OPTIONS, PATCH, HEAD''),
           (''Access-Control-Allow-Headers'', ''*''),
           (''Cache-Control'', ''no-cache, no-store, must-revalidate'')],
      res_body = ErrorJson msg rid code det\<rparr>"

definition createCorsHeaders :: "Env \<Rightarrow> headers" where
  "createCorsHeaders env =
     hset_all []
       [(''Access-Control-Allow-Origin'', ALLOWED_ORIGIN env),
        (''Access-Control-Allow-Methods'', ''GET, POST, PUT, DELETE, OPTIONS, PATCH, HEAD''),
        (''Access-Control-Allow-Headers'', ''*''),
        (''Access-Control-Expose-Headers'',
           ''Content-Type, Content-Length, X-Request-Id, X-Processing-Mode, X-Processing-Time''),
        (''Access-Control-Max-Age'', ''86400'')]"

definition excludeHeaders :: "string list" where
  "excludeHeaders =
     [''content-encoding'', ''transfer-encoding'', ''connection'', ''keep-alive'', ''server'',
      ''x-powered-by'', ''cf-ray'', ''cf-cache-status'']"

definition processResponseHeaders :: "Env \<Rightarrow> headers \<Rightarrow> string \<Rightarrow> string \<Rightarrow> headers" where
  "processResponseHeaders env upstreamHeaders rid mode =
     (let h0 = foldl (\<lambda>h (k, v). if toLowerCase k \<notin> set excludeHeaders then hset h k v else h)
                 [] upstreamHeaders;
          h1 = hset_all h0 (createCorsHeaders env)
      in hset_all h1
           [(''X-Request-Id'', rid),
            (''X-Processing-Mode'', mode),
            (''X-Gateway-Version'', ''1.0.0''),
            (''X-Content-Type-Options'', ''nosniff''),
            (''X-Frame-Options'', ''DENY'')])"

definition createStreamingResponse :: "response_body \<Rightarrow> nat \<Rightarrow> string \<Rightarrow> headers \<Rightarrow> response" where
  "createStreamingResponse body code text hs =
     \<lparr>res_status = code, res_statusText = text,
      res_headers =
        hset_all hs
          [(''Cache-Control'', ''no-cache, no-store, must-revalidate''),
           (''X-Accel-Buffering'', ''no'')],
      res_body = body\<rparr>"

section \<open>Dispatch controller (gateway.ts)\<close>

text \<open>
  A call of the gateway is one of: an outbound call to the provider under the fast-path
  deadline (with the retries of \<open>fetchWithRetry\<close>), or the forwarding call to the
  background function under its own deadline.
\<close>

datatype call = Upstream event | BackgroundFetch string string int

definition edge_deadline :: "Env \<Rightarrow> ProxyConfig \<Rightarrow> int" where
  "edge_deadline env proxy = min (js_or_num (timeout proxy) (DEFAULT_TIMEOUT env)) 20000"

text \<open>\<open>setTimeout(() => controller.abort(), 20000)\<close> in \<open>forwardToBackground\<close>.\<close>

definition background_deadline :: int where
  "background_deadline = 20000"

definition handleInEdge :: "Env \<Rightarrow> world \<Rightarrow> request \<Rightarrow> RequestContext \<Rightarrow> ProxyConfig
    \<Rightarrow> string \<Rightarrow> string \<Rightarrow> call list \<times> (js_error + response)" where
  "handleInEdge env w req context proxy userPath search =
     (let upstreamURL = buildUpstreamURL (host proxy) (basePath proxy) userPath search;
          forwardHeaders = buildForwardHeaders (req_headers req) proxy;
          upstreamRequest =
            \<lparr>out_method = ctx_method context, out_url = upstreamURL,
             out_headers = forwardHeaders, out_deadline = edge_deadline env proxy\<rparr>;
          run = fetchWithRetry upstreamRequest
                  (if ENABLE_RETRY env
                   then (case maxRetries proxy of None \<Rightarrow> 1 | Some n \<Rightarrow> n) else 0)
                  (retryableMethods proxy) w
      in (map Upstream (fst run),
          case snd run of
            Inl error \<Rightarrow> Inl error
          | Inr upstreamResponse \<Rightarrow>
              (let contentLength = hget (rheaders upstreamResponse) ''content-length'';
                   maxSize = js_or_num (maxResponseSize proxy) (MAX_RESPONSE_SIZE env)
               in if declared_size_over w contentLength maxSize
                  then Inr (createErrorResponse env 413
                              (SizeText (the (w_parseInt w (the contentLength))) maxSize)
                              (ctx_reqId context) NoDetail)
                  else
                    (let responseHeaders =
                           hset (processResponseHeaders env (rheaders upstreamResponse)
                                   (ctx_reqId context) ''edge'')
                             ''X-Processing-Time'' (w_elapsed w);
                         responseBody =
                           (case rbody upstreamResponse of
                              None \<Rightarrow> Relayed None None
                            | Some chunks \<Rightarrow>
                                if (contentLength = None \<or> contentLength = Some [])
                                   \<and> maxSize > 0
                                then
                                  (let piped = snd (createSizeLimitedStream maxSize
                                                      (ctx_reqId context) chunks)
                                   in Relayed (Some (enqueued piped)) (errored piped))
                                else Relayed (Some chunks) None)
                     in Inr (createStreamingResponse responseBody
                               (rstatus upstreamResponse) (rstatusText upstreamResponse)
                               responseHeaders)))))"

text \<open>
  \<open>forwardToBackground\<close>: the forwarding call, then on success the relayed response,
  on an abort the 504, on any other failure the fallback decision. The forwarding call is
  recorded with its method, URL and deadline; its headers and buffered body, the log
  lines and the client address play no part in the result and are left out.
\<close>

definition forwardToBackground :: "Env \<Rightarrow> world \<Rightarrow> request \<Rightarrow> RequestContext \<Rightarrow> ProxyConfig
    \<Rightarrow> call list \<times> (js_error + response)" where
  "forwardToBackground env w req context proxy =
     (let pathname = replace_first ''/gateway'' [] (url_pathname req);
          backgroundUrl = url_protocol req @ ''//'' @ url_host req @ ''/api/background''
                            @ pathname @ url_search req;
          forwarding = BackgroundFetch (ctx_method context) backgroundUrl background_deadline
      in case w_background w of
           Resolves backgroundResponse \<Rightarrow>
             (let h0 = hset_all [] (rheaders backgroundResponse);
                  h1 = hset_all h0
                         [(''X-Request-Id'', ctx_reqId context),
                          (''X-Processing-Mode'', ''background''),
                          (''X-Processing-Time'', w_elapsed w)];
                  responseHeaders = hset_all h1 (createCorsHeaders env)
              in ([forwarding],
                  Inr \<lparr>res_status = rstatus backgroundResponse,
                       res_statusText = rstatusText backgroundResponse,
                       res_headers = responseHeaders,
                       res_body = Relayed (rbody backgroundResponse) None\<rparr>))
         | Rejects error \<Rightarrow>
             if err_name error = ''AbortError''
             then ([forwarding],
                   Inr (createErrorResponse env 504 (Text ''Background processing timeout'')
                          (ctx_reqId context) NoDetail))
             else if allowFallback proxy \<noteq> Some False \<and> ENABLE_FALLBACK env
             then
               (let segments = path_segments (replace_first ''/gateway'' [] (url_pathname req));
                    userPath = sanitizePath (drop 1 segments);
                    edge = handleInEdge env w req context proxy userPath (url_search req)
                in (forwarding # fst edge, snd edge))
             else ([forwarding],
                   Inr (createErrorResponse env 500 (Text ''Background processing failed'')
                          (ctx_reqId context) NoDetail)))"

definition getRequestId :: "headers \<Rightarrow> string \<Rightarrow> string" where
  "getRequestId hs uuid =
     js_or_str (hget hs ''x-request-id'')
       (js_or_str (hget hs ''x-correlation-id'')
          (js_or_str (hget hs ''x-trace-id'') uuid))"

definition is_health_check :: "request \<Rightarrow> bool" where
  "is_health_check req =
     (url_pathname req = ''/gateway/health'' \<or> url_pathname req = ''/health'')"

text \<open>
  The handler, for a table \<open>proxies\<close> of the configured providers (\<open>PROXIES\<close>): the
  calls it makes and the response it returns.
\<close>

definition handler :: "Env \<Rightarrow> (string \<times> ProxyConfig) list \<Rightarrow> world \<Rightarrow> request
    \<Rightarrow> call list \<times> response" where
  "handler env proxies w req =
     (let rid = getRequestId (req_headers req) (w_uuid w);
          pathname = url_pathname req
      in if is_health_check req
         then ([], \<lparr>res_status = 200, res_statusText = [],
                    res_headers = hset_all (hset [] ''Content-Type'' ''application/json'')
                                    (createCorsHeaders env),
                    res_body = HealthJson\<rparr>)
         else if req_method req = ''OPTIONS''
         then ([], \<lparr>res_status = 204, res_statusText = [],
                    res_headers = createCorsHeaders env, res_body = NoBody\<rparr>)
         else
           (let cleanedPathname =
                  (if startsWith pathname ''/gateway''
                   then replace_first ''/gateway'' [] pathname else pathname);
                segments = path_segments cleanedPathname
            in if length segments < 2
               then ([], createErrorResponse env 400
                           (Text ''Invalid path format. Expected: /gateway/{service}/{path}'')
                           rid
                           (AvailableServicesExample (map fst proxies)
                              ''/gateway/openai/v1/chat/completions''))
               else
                 (let serviceAlias = hd segments;
                      pathSegments = tl segments;
                      context = \<lparr>ctx_reqId = rid, ctx_service = serviceAlias,
                                 ctx_method = req_method req, ctx_path = pathname\<rparr>
                  in case map_of proxies serviceAlias of
                       None \<Rightarrow>
                         ([], createErrorResponse env 404
                                (Text (''Service '' @ [CHR 0x27] @ serviceAlias @ [CHR 0x27]
                                       @ '' not found''))
                                rid (AvailableServices (map fst proxies)))
                     | Some proxy \<Rightarrow>
                         (let decision = shouldForwardToBackground w req proxy context;
                              run = (if shouldForward decision
                                     then forwardToBackground env w req context proxy
                                     else handleInEdge env w req context proxy
                                            (sanitizePath pathSegments) (url_search req))
                          in (fst run,
                              case snd run of
                                Inr res \<Rightarrow> res
                              | Inl error \<Rightarrow>
                                  (let errorInfo = categorizeError error
                                   in createErrorResponse env (info_status errorInfo)
                                        (info_message errorInfo) rid
                                        (ErrorType (info_type errorInfo))))))))"

section \<open>Example inputs\<close>

text \<open>
  A provider that answers 503 twice and then 404, with \<open>Math.random()\<close> returning 0,
  and a background call that fails with a network error.
\<close>

definition example_response :: "nat \<Rightarrow> upstream_response" where
  "example_response code = \<lparr>rstatus = code, rstatusText = [], rheaders = [], rbody = None\<rparr>"

definition example_world :: world where
  "example_world =
     \<lparr>w_upstream = (\<lambda>i. if i < 2 then Resolves (example_response 503)
                         else Resolves (example_response 404)),
      w_random = (\<lambda>i. 0),
      w_background = Rejects (JsError ''TypeError'' ''fetch failed''),
      w_elapsed = ''12.34'',
      w_uuid = ''00000000-0000-4000-8000-000000000000'',
      w_parseInt = (\<lambda>s. None)\<rparr>"

definition example_get :: outbound where
  "example_get =
     \<lparr>out_method = ''GET'', out_url = ''https://api.openai.com/v1/models'',
      out_headers = [], out_deadline = 20000\<rparr>"

definition example_env :: Env where
  "example_env =
     \<lparr>ALLOWED_ORIGIN = ''*'', DEFAULT_TIMEOUT = 20000, BACKGROUND_TIMEOUT = 240000,
      MAX_RESPONSE_SIZE = 6291456, ENABLE_RETRY = True, ENABLE_FALLBACK = True\<rparr>"

text \<open>The built-in entry for \<open>openai\<close>, which has no \<open>allowFallback\<close> field.\<close>

definition openai_proxy :: ProxyConfig where
  "openai_proxy =
     \<lparr>host = ''api.openai.com'', basePath = None, timeout = Some 120000, maxRetries = None,
      maxResponseSize = Some 10485760,
      retryableMethods = Some [''GET'', ''HEAD'', ''OPTIONS'', ''POST''],
      defaultHeaders = None, supportsStreaming = None, allowFallback = None,
      retryable = Some True\<rparr>"

definition example_request :: "string \<Rightarrow> string \<Rightarrow> string \<Rightarrow> (string \<times> string) list
    \<Rightarrow> headers \<Rightarrow> body_json option \<Rightarrow> request" where
  "example_request m pathname search params hs body =
     \<lparr>req_method = m, url_protocol = ''https:'', url_host = ''gw.example.com'',
      url_pathname = pathname, url_search = search, url_searchParams = params,
      req_headers = hs, req_body = body\<rparr>"

text \<open>\<open>POST /gateway/openai/v1/embeddings?stream=true\<close> with a small JSON body.\<close>

definition embeddings_stream_query :: request where
  "embeddings_stream_query =
     example_request ''POST'' ''/gateway/openai/v1/embeddings'' ''?stream=true''
       [(''stream'', ''true'')] [(''content-type'', ''application/json'')]
       (Some (Parsed (JObject [(''input'', JString ''hi'')])))"

text \<open>\<open>POST /gateway/openai/v1/chat/completions\<close> with the body \<open>{"stream": true}\<close>.\<close>

definition chat_stream_body :: request where
  "chat_stream_body =
     example_request ''POST'' ''/gateway/openai/v1/chat/completions'' [] []
       [(''content-type'', ''application/json'')]
       (Some (Parsed (JObject [(''stream'', JBool True)])))"

text \<open>\<open>POST /gateway/openai/v1/embeddings\<close> with a ten-byte body.\<close>

definition embeddings_post :: request where
  "embeddings_post =
     example_request ''POST'' ''/gateway/openai/v1/embeddings'' [] []
       [(''content-type'', ''application/json''), (''content-length'', ''10'')]
       (Some (Parsed (JObject [(''input'', JString ''hi'')])))"

definition options_request :: request where
  "options_request =
     example_request ''OPTIONS'' ''/gateway/openai/v1/chat/completions'' [] [] [] None"

definition embeddings_context :: RequestContext where
  "embeddings_context =
     \<lparr>ctx_reqId = ''req-1'', ctx_service = ''openai'', ctx_method = ''POST'',
      ctx_path = ''/gateway/openai/v1/embeddings''\<rparr>"

text \<open>The same world with a forwarding call that is aborted by its timer.\<close>

definition aborted_world :: world where
  "aborted_world =
     example_world\<lparr>w_background := Rejects (JsError ''AbortError'' ''The operation was aborted'')\<rparr>"

text \<open>The same world with a provider that answers 200.\<close>

definition healthy_world :: world where
  "healthy_world = example_world\<lparr>w_upstream := (\<lambda>i. Resolves (example_response 200))\<rparr>"

section \<open>Header sanitizer: proofs\<close>

lemma keys_hset: "fst ` set (hset hs k v) = insert (toLowerCase k) (fst ` set hs)"
proof -
  have "set (map fst (AList.update (toLowerCase k) v hs))
      = insert (toLowerCase k) (set (map fst hs))"
    by (simp add: AList.update_keys insert_absorb)
  then show ?thesis by (simp add: hset_def)
qed

lemma keys_hdelete: "fst ` set (hdelete hs k) \<subseteq> fst ` set hs"
  by (auto simp: hdelete_def AList.delete_eq)

lemma keys_hset_all:
  "fst ` set (hset_all hs d) = fst ` set hs \<union> toLowerCase ` fst ` set d"
  unfolding hset_all_def
proof (induction d arbitrary: hs)
  case Nil
  show ?case by simp
next
  case (Cons c d)
  obtain k v where c: "c = (k, v)" by (cases c)
  show ?case by (simp add: c Cons.IH keys_hset)
qed

lemma keys_forward_client:
  "x \<in> fst ` set (forward_client hs cs) \<Longrightarrow>
     x \<in> fst ` set hs \<or> (\<exists>k \<in> fst ` set cs. isAllowedHeader k \<and> x = toLowerCase k)"
  unfolding forward_client_def
proof (induction cs arbitrary: hs)
  case Nil
  then show ?case by simp
next
  case (Cons c cs)
  obtain k v where c: "c = (k, v)" by (cases c)
  let ?hs' = "if isAllowedHeader k then hset hs k v else hs"
  from Cons.prems
  have "x \<in> fst ` set (foldl (\<lambda>h (k, v). if isAllowedHeader k then hset h k v else h) ?hs' cs)"
    by (simp add: c)
  from Cons.IH [OF this]
  have "x \<in> fst ` set ?hs' \<or> (\<exists>k \<in> fst ` set cs. isAllowedHeader k \<and> x = toLowerCase k)" .
  then show ?case
  proof
    assume a: "x \<in> fst ` set ?hs'"
    show ?thesis
    proof (cases "isAllowedHeader k")
      case True
      with a have "x = toLowerCase k \<or> x \<in> fst ` set hs" by (simp add: keys_hset)
      then show ?thesis using True by (auto simp: c)
    next
      case False
      with a show ?thesis by simp
    qed
  next
    assume "\<exists>k \<in> fst ` set cs. isAllowedHeader k \<and> x = toLowerCase k"
    then show ?thesis by auto
  qed
qed

text \<open>
  Claim C8. A header passes the sanitizer's test exactly when its lower-cased name is not
  on the deny-list and is on the allow-list or follows the \<open>x-\<close> rule (starts with
  \<open>x-\<close>, not with \<open>x-forwarded\<close> or \<open>x-real\<close>), so the deny-list wins over both;
  \<open>cookie\<close> and \<open>x-forwarded-for\<close> are dropped and \<open>x-my-custom\<close> is kept; and every
  name in the outbound set built by \<open>buildForwardHeaders\<close> is the lower-cased name of
  an inbound header that passes the test, a name of the provider's default headers, or the
  synthesized \<open>user-agent\<close>.
\<close>

theorem header_sanitizer_rule:
  "(isAllowedHeader h \<longleftrightarrow>
      toLowerCase h \<notin> set BLOCKED_REQUEST_HEADERS \<and>
      (toLowerCase h \<in> set ALLOWED_REQUEST_HEADERS \<or>
       (startsWith (toLowerCase h) ''x-'' \<and> \<not> startsWith (toLowerCase h) ''x-forwarded''
        \<and> \<not> startsWith (toLowerCase h) ''x-real'')))
   \<and> \<not> isAllowedHeader ''cookie''
   \<and> isAllowedHeader ''x-my-custom''
   \<and> \<not> isAllowedHeader ''x-forwarded-for''
   \<and> fst ` set (buildForwardHeaders clientHeaders proxy)
        \<subseteq> toLowerCase ` {k \<in> fst ` set clientHeaders. isAllowedHeader k}
          \<union> default_names proxy \<union> {''user-agent''}"
proof -
  have rule: "isAllowedHeader h \<longleftrightarrow>
      toLowerCase h \<notin> set BLOCKED_REQUEST_HEADERS \<and>
      (toLowerCase h \<in> set ALLOWED_REQUEST_HEADERS \<or>
       (startsWith (toLowerCase h) ''x-'' \<and> \<not> startsWith (toLowerCase h) ''x-forwarded''
        \<and> \<not> startsWith (toLowerCase h) ''x-real''))"
    unfolding isAllowedHeader_def Let_def by (simp only: if_bool_eq_conj) blast
  have e1: "\<not> isAllowedHeader ''cookie''" by code_simp
  have e2: "isAllowedHeader ''x-my-custom''" by code_simp
  have e3: "\<not> isAllowedHeader ''x-forwarded-for''" by code_simp
  define h0 where "h0 = (case defaultHeaders proxy of None \<Rightarrow> [] | Some d \<Rightarrow> hset_all [] d)"
  define h1 where "h1 = forward_client h0 clientHeaders"
  define h2 where "h2 = (if \<not> hhas h1 ''user-agent''
                then hset h1 ''User-Agent'' ''Mozilla/5.0 (compatible; API Gateway/1.0)''
                else h1)"
  have out_eq: "buildForwardHeaders clientHeaders proxy
      = hdelete (hdelete h2 ''host'') ''connection''"
    by (simp add: buildForwardHeaders_def Let_def h0_def h1_def h2_def)
  have k0: "fst ` set h0 = default_names proxy"
    by (simp add: h0_def default_names_def keys_hset_all split: option.splits)
  have ua: "toLowerCase ''User-Agent'' = ''user-agent''" by code_simp
  have k2: "fst ` set h2 \<subseteq> insert ''user-agent'' (fst ` set h1)"
    unfolding h2_def by (simp add: keys_hset ua subset_insertI)
  have out: "fst ` set (buildForwardHeaders clientHeaders proxy)
        \<subseteq> toLowerCase ` {k \<in> fst ` set clientHeaders. isAllowedHeader k}
          \<union> default_names proxy \<union> {''user-agent''}"
  proof
    fix x assume "x \<in> fst ` set (buildForwardHeaders clientHeaders proxy)"
    then have "x \<in> fst ` set h2"
      unfolding out_eq using keys_hdelete by blast
    then have "x = ''user-agent'' \<or> x \<in> fst ` set h1" using k2 by blast
    then show "x \<in> toLowerCase ` {k \<in> fst ` set clientHeaders. isAllowedHeader k}
          \<union> default_names proxy \<union> {''user-agent''}"
    proof
      assume "x = ''user-agent''" then show ?thesis by simp
    next
      assume "x \<in> fst ` set h1"
      then have "x \<in> fst ` set h0
          \<or> (\<exists>k \<in> fst ` set clientHeaders. isAllowedHeader k \<and> x = toLowerCase k)"
        unfolding h1_def by (rule keys_forward_client)
      then show ?thesis unfolding k0 by blast
    qed
  qed
  from rule e1 e2 e3 out show ?thesis by (intro conjI)
qed

theorem header_sanitizer_rule_witness:
  "fst ` set (buildForwardHeaders
       [(''Cookie'', ''a=b''), (''X-My-Custom'', ''1''), (''X-Forwarded-For'', ''10.0.0.1'')]
       \<lparr>host = ''api.openai.com'', basePath = None, timeout = None, maxRetries = None,
        maxResponseSize = None, retryableMethods = None, defaultHeaders = None,
        supportsStreaming = None, allowFallback = None, retryable = None\<rparr>)
     = {''x-my-custom'', ''user-agent''}
   \<and> \<not> isAllowedHeader ''Cookie''"
proof -
  let ?cs = "[(''Cookie'', ''a=b''), (''X-My-Custom'', ''1''), (''X-Forwarded-For'', ''10.0.0.1'')]"
  let ?p = "\<lparr>host = ''api.openai.com'', basePath = None, timeout = None, maxRetries = None,
        maxResponseSize = None, retryableMethods = None, defaultHeaders = None,
        supportsStreaming = None, allowFallback = None, retryable = None\<rparr>"
  have a: "buildForwardHeaders ?cs ?p
      = [(''x-my-custom'', ''1''), (''user-agent'', ''Mozilla/5.0 (compatible; API Gateway/1.0)'')]"
    by code_simp
  have b: "toLowerCase ''Cookie'' \<in> set BLOCKED_REQUEST_HEADERS" by code_simp
  have "\<not> isAllowedHeader ''Cookie''"
    using header_sanitizer_rule [of "''Cookie''" ?cs ?p] b by blast
  then show ?thesis by (simp add: a)
qed

section \<open>Streaming response governor: proofs\<close>

lemma transform_aborted: "aborted (fst sc) \<Longrightarrow> transform maxSize reqId sc c = sc"
  by (simp add: transform_def)

lemma feed_aborted: "aborted (fst sc) \<Longrightarrow> feed maxSize reqId sc cs = sc"
  unfolding feed_def
  by (induction cs) (simp_all add: transform_aborted)

lemma feed_append:
  "feed maxSize reqId sc (xs @ ys) = feed maxSize reqId (feed maxSize reqId sc xs) ys"
  by (simp add: feed_def)

lemma feed_within:
  "cs = [] \<or> int (t + sum_list (map length cs)) \<le> maxSize \<Longrightarrow>
   feed maxSize reqId (\<lparr>totalBytes = t, aborted = False\<rparr>, ctl) cs
     = (\<lparr>totalBytes = t + sum_list (map length cs), aborted = False\<rparr>,
        ctl\<lparr>enqueued := enqueued ctl @ cs\<rparr>)"
proof (induction cs arbitrary: t ctl)
  case Nil
  show ?case by (simp add: feed_def)
next
  case (Cons c cs)
  from Cons.prems have bound: "int (t + length c + sum_list (map length cs)) \<le> maxSize"
    by (simp add: add.assoc)
  then have here: "\<not> int (t + length c) > maxSize" by linarith
  have step: "transform maxSize reqId (\<lparr>totalBytes = t, aborted = False\<rparr>, ctl) c
      = (\<lparr>totalBytes = t + length c, aborted = False\<rparr>, ctl\<lparr>enqueued := enqueued ctl @ [c]\<rparr>)"
    using here by (simp add: transform_def Let_def)
  have "feed maxSize reqId (\<lparr>totalBytes = t, aborted = False\<rparr>, ctl) (c # cs)
      = feed maxSize reqId (\<lparr>totalBytes = t + length c, aborted = False\<rparr>,
          ctl\<lparr>enqueued := enqueued ctl @ [c]\<rparr>) cs"
    by (simp add: feed_def step)
  also have "\<dots> = (\<lparr>totalBytes = t + length c + sum_list (map length cs), aborted = False\<rparr>,
        ctl\<lparr>enqueued := enqueued ctl @ [c] @ cs\<rparr>)"
    using Cons.IH [of "t + length c" "ctl\<lparr>enqueued := enqueued ctl @ [c]\<rparr>"] bound
    by simp
  finally show ?case by (simp add: add.assoc)
qed

lemma feed_exceeding:
  "int (t + length c) > maxSize \<Longrightarrow>
   feed maxSize reqId (\<lparr>totalBytes = t, aborted = False\<rparr>, ctl) (c # rest)
     = (\<lparr>totalBytes = t + length c, aborted = True\<rparr>,
        ctl\<lparr>errored := Some (ResponseSizeExceeded (t + length c) maxSize reqId)\<rparr>)"
proof -
  assume a: "int (t + length c) > maxSize"
  have step: "transform maxSize reqId (\<lparr>totalBytes = t, aborted = False\<rparr>, ctl) c
      = (\<lparr>totalBytes = t + length c, aborted = True\<rparr>,
        ctl\<lparr>errored := Some (ResponseSizeExceeded (t + length c) maxSize reqId)\<rparr>)"
    using a by (simp add: transform_def Let_def)
  have "feed maxSize reqId (\<lparr>totalBytes = t, aborted = False\<rparr>, ctl) (c # rest)
      = feed maxSize reqId (transform maxSize reqId (\<lparr>totalBytes = t, aborted = False\<rparr>, ctl) c) rest"
    by (simp add: feed_def)
  also have "\<dots> = transform maxSize reqId (\<lparr>totalBytes = t, aborted = False\<rparr>, ctl) c"
    by (rule feed_aborted) (simp add: step)
  finally show ?thesis by (simp add: step)
qed

lemma bytes_upto_Suc:
  "k < length chunks \<Longrightarrow> bytes_upto chunks (Suc k) = bytes_upto chunks k + length (chunks ! k)"
  by (simp add: bytes_upto_def take_Suc_conv_app_nth)

text \<open>
  Claim C2. When the cumulative size of the chunks first exceeds the limit at chunk \<open>k\<close>
  (counted from 0: every shorter prefix is within the limit, the prefix ending with chunk
  \<open>k\<close> is not), the stream enqueues exactly the chunks before \<open>k\<close>, unchanged and in
  order, is put into the size-limit error carrying the byte count reached, and has its
  \<open>aborted\<close> flag set; whatever is produced upstream afterwards changes nothing, and a
  transform whose flag is set leaves the readable side as it is.
\<close>

theorem size_limited_stream_cutoff:
  assumes "k < length chunks"
    and "\<forall>j<k. int (bytes_upto chunks (Suc j)) \<le> maxSize"
    and "int (bytes_upto chunks (Suc k)) > maxSize"
  shows "enqueued (snd (createSizeLimitedStream maxSize reqId chunks)) = take k chunks
     \<and> errored (snd (createSizeLimitedStream maxSize reqId chunks))
         = Some (ResponseSizeExceeded (bytes_upto chunks (Suc k)) maxSize reqId)
     \<and> aborted (fst (createSizeLimitedStream maxSize reqId chunks))
     \<and> (\<forall>more. createSizeLimitedStream maxSize reqId (chunks @ more)
                = createSizeLimitedStream maxSize reqId chunks)
     \<and> (\<forall>st ctl c. aborted st \<longrightarrow> transform maxSize reqId (st, ctl) c = (st, ctl))"
proof -
  let ?init = "(\<lparr>totalBytes = 0, aborted = False\<rparr>, \<lparr>enqueued = [], errored = None\<rparr>)"
  let ?t = "bytes_upto chunks k"
  have split: "chunks = take k chunks @ chunks ! k # drop (Suc k) chunks"
    using assms(1) by (rule id_take_nth_drop)
  have before: "take k chunks = [] \<or> int (0 + sum_list (map length (take k chunks))) \<le> maxSize"
  proof (cases k)
    case 0
    then show ?thesis by simp
  next
    case (Suc j)
    with assms(2) have "int (bytes_upto chunks (Suc j)) \<le> maxSize" by simp
    with Suc show ?thesis by (simp add: bytes_upto_def)
  qed
  have pre: "feed maxSize reqId ?init (take k chunks)
      = (\<lparr>totalBytes = ?t, aborted = False\<rparr>, \<lparr>enqueued = take k chunks, errored = None\<rparr>)"
    using feed_within [OF before, of reqId "\<lparr>enqueued = [], errored = None\<rparr>"]
    by (simp add: bytes_upto_def)
  have over: "int (?t + length (chunks ! k)) > maxSize"
    using assms(3) bytes_upto_Suc [OF assms(1)] by simp
  have "createSizeLimitedStream maxSize reqId chunks
      = feed maxSize reqId (feed maxSize reqId ?init (take k chunks))
          (chunks ! k # drop (Suc k) chunks)"
    unfolding createSizeLimitedStream_def
    by (subst split) (rule feed_append)
  also have "\<dots> = (\<lparr>totalBytes = ?t + length (chunks ! k), aborted = True\<rparr>,
        \<lparr>enqueued = take k chunks,
         errored = Some (ResponseSizeExceeded (?t + length (chunks ! k)) maxSize reqId)\<rparr>)"
    unfolding pre using feed_exceeding [OF over] by simp
  finally have run: "createSizeLimitedStream maxSize reqId chunks
      = (\<lparr>totalBytes = bytes_upto chunks (Suc k), aborted = True\<rparr>,
        \<lparr>enqueued = take k chunks,
         errored = Some (ResponseSizeExceeded (bytes_upto chunks (Suc k)) maxSize reqId)\<rparr>)"
    by (simp add: bytes_upto_Suc [OF assms(1)])
  have later: "createSizeLimitedStream maxSize reqId (chunks @ more)
      = createSizeLimitedStream maxSize reqId chunks" for more
  proof -
    have "createSizeLimitedStream maxSize reqId (chunks @ more)
        = feed maxSize reqId (createSizeLimitedStream maxSize reqId chunks) more"
      by (simp add: createSizeLimitedStream_def feed_append)
    also have "\<dots> = createSizeLimitedStream maxSize reqId chunks"
      by (rule feed_aborted) (simp add: run)
    finally show ?thesis .
  qed
  have flag: "aborted st \<longrightarrow> transform maxSize reqId (st, ctl) c = (st, ctl)" for st ctl c
    by (simp add: transform_aborted)
  from run later flag show ?thesis by simp
qed

theorem size_limited_stream_cutoff_witness:
  "enqueued (snd (createSizeLimitedStream 5 ''req-1'' [''ab'', ''cd'', ''ef'', ''g'']))
     = [''ab'', ''cd'']
   \<and> errored (snd (createSizeLimitedStream 5 ''req-1'' [''ab'', ''cd'', ''ef'', ''g'']))
     = Some (ResponseSizeExceeded 6 5 ''req-1'')
   \<and> aborted (fst (createSizeLimitedStream 5 ''req-1'' [''ab'', ''cd'', ''ef'', ''g'']))
   \<and> transform 5 ''req-1''
         (\<lparr>totalBytes = 6, aborted = True\<rparr>, \<lparr>enqueued = [''ab'', ''cd''], errored = None\<rparr>)
         ''zz''
     = (\<lparr>totalBytes = 6, aborted = True\<rparr>, \<lparr>enqueued = [''ab'', ''cd''], errored = None\<rparr>)"
proof -
  let ?chunks = "[''ab'', ''cd'', ''ef'', ''g'']"
  have h1: "(2::nat) < length ?chunks" by simp
  have h2: "\<forall>j<2. int (bytes_upto ?chunks (Suc j)) \<le> 5"
    by (simp add: bytes_upto_def less_Suc_eq numeral_2_eq_2)
  have h3: "int (bytes_upto ?chunks (Suc 2)) > 5"
    by (simp add: bytes_upto_def)
  have six: "bytes_upto ?chunks 3 = 6" by (simp add: bytes_upto_def)
  have flag: "aborted \<lparr>totalBytes = 6, aborted = True\<rparr>" by simp
  from size_limited_stream_cutoff [OF h1 h2 h3, of "''req-1''"] six flag
  show ?thesis by simp
qed

section \<open>Path sanitizer: proofs\<close>

lemma split_on_no_sep: "d \<notin> set s \<Longrightarrow> split_on d s = [s]"
  by (induction s) auto

lemma split_on_sep: "d \<notin> set a \<Longrightarrow> split_on d (a @ d # b) = a # split_on d b"
  by (induction a) auto

lemma split_on_join:
  "xs \<noteq> [] \<Longrightarrow> \<forall>x\<in>set xs. d \<notin> set x \<Longrightarrow> split_on d (join_with [d] xs) = xs"
proof (induction "[d]" xs rule: join_with.induct)
  case 1
  then show ?case by simp
next
  case (2 x)
  then show ?case by (simp add: split_on_no_sep)
next
  case (3 x y ys)
  then show ?case by (simp add: split_on_sep)
qed

lemma join_with_ends:
  "xs \<noteq> [] \<Longrightarrow> \<forall>x\<in>set xs. x \<noteq> [] \<and> d \<notin> set x \<Longrightarrow>
   join_with [d] xs \<noteq> [] \<and> hd (join_with [d] xs) \<noteq> d \<and> last (join_with [d] xs) \<noteq> d"
proof (induction "[d]" xs rule: join_with.induct)
  case 1
  then show ?case by simp
next
  case (2 x)
  then have "x \<noteq> []" "d \<notin> set x" by simp_all
  then have "hd x \<in> set x" "last x \<in> set x" by simp_all
  with \<open>x \<noteq> []\<close> \<open>d \<notin> set x\<close> show ?case by auto
next
  case (3 x y ys)
  then have x: "x \<noteq> []" "d \<notin> set x" by simp_all
  then have "hd x \<in> set x" by simp
  with x have hx: "hd x \<noteq> d" by auto
  from 3 have rest: "join_with [d] (y # ys) \<noteq> []" "last (join_with [d] (y # ys)) \<noteq> d"
    by simp_all
  show ?case using x hx rest by simp
qed

lemma strip_slashes_id: "s \<noteq> [] \<Longrightarrow> hd s \<noteq> CHR ''/'' \<Longrightarrow> last s \<noteq> CHR ''/'' \<Longrightarrow> strip_slashes s = s"
  by (cases s) (simp_all add: strip_slashes_def)

lemma hex_digit_not_slash: "hex_digit n \<noteq> CHR ''/''"
proof -
  have "n mod 16 < length ''0123456789ABCDEF''" by simp
  then have "hex_digit n \<in> set ''0123456789ABCDEF''"
    unfolding hex_digit_def by (rule nth_mem)
  then show ?thesis by auto
qed

lemma unreserved_not_slash: "uri_unreserved c \<Longrightarrow> c \<noteq> CHR ''/''"
  by (auto simp: uri_unreserved_def)

lemma unreserved_not_percent: "uri_unreserved c \<Longrightarrow> c \<noteq> CHR ''%''"
  by (auto simp: uri_unreserved_def)

lemma encode_char_no_slash: "CHR ''/'' \<notin> set (encode_char c)"
  using hex_digit_not_slash [of "of_char c div 16"] hex_digit_not_slash [of "of_char c mod 16"]
    unreserved_not_slash [of c]
  by (auto simp: encode_char_def)

lemma encodeURIComponent_no_slash: "CHR ''/'' \<notin> set (encodeURIComponent s)"
  by (simp add: encodeURIComponent_def encode_char_no_slash)

lemma encodeURIComponent_nonempty: "s \<noteq> [] \<Longrightarrow> encodeURIComponent s \<noteq> []"
  by (cases s) (simp_all add: encodeURIComponent_def encode_char_def)

lemma encode_char_plain: "CHR ''%'' \<notin> set (encode_char c) \<Longrightarrow> encode_char c = [c]"
  by (simp add: encode_char_def split: if_splits)

lemma encodeURIComponent_plain:
  "CHR ''%'' \<notin> set (encodeURIComponent s) \<Longrightarrow> encodeURIComponent s = s"
proof (induction s)
  case Nil
  show ?case by (simp add: encodeURIComponent_def)
next
  case (Cons c s)
  have unfold: "encodeURIComponent (c # s) = encode_char c @ encodeURIComponent s"
    by (simp add: encodeURIComponent_def)
  from Cons.prems have p1: "CHR ''%'' \<notin> set (encode_char c)"
    and p2: "CHR ''%'' \<notin> set (encodeURIComponent s)"
    unfolding unfold by simp_all
  have "encode_char c = [c]" using p1 by (rule encode_char_plain)
  moreover have "encodeURIComponent s = s" using p2 by (rule Cons.IH)
  ultimately show ?case unfolding unfold by simp
qed

lemma replace_colon_set: "set (replace_colon s) \<subseteq> insert CHR '':'' (set s)"
  by (induction s rule: replace_colon.induct) auto

lemma replace_colon_nonempty: "s \<noteq> [] \<Longrightarrow> replace_colon s \<noteq> []"
  by (induction s rule: replace_colon.induct) auto

lemma replace_colon_plain: "CHR '':'' \<notin> set (replace_colon s) \<Longrightarrow> replace_colon s = s"
  by (induction s rule: replace_colon.induct) (auto split: if_splits)

lemma encoded_no_slash: "CHR ''/'' \<notin> set (replace_colon (encodeURIComponent s))"
  using replace_colon_set [of "encodeURIComponent s"] encodeURIComponent_no_slash [of s]
  by auto

lemma encoded_dots:
  assumes "replace_colon (encodeURIComponent s) = e" and "set e \<subseteq> {CHR ''.''}"
  shows "s = e"
proof -
  from assms have "CHR '':'' \<notin> set (replace_colon (encodeURIComponent s))" by auto
  then have r: "replace_colon (encodeURIComponent s) = encodeURIComponent s"
    by (rule replace_colon_plain)
  with assms have "CHR ''%'' \<notin> set (encodeURIComponent s)" by auto
  then have "encodeURIComponent s = s" by (rule encodeURIComponent_plain)
  with r assms(1) show ?thesis by simp
qed

lemma encoded_not_dot_segment:
  assumes "s \<noteq> []" and "s \<noteq> ''.''" and "s \<noteq> ''..''"
  shows "replace_colon (encodeURIComponent s) \<noteq> []
     \<and> replace_colon (encodeURIComponent s) \<noteq> ''.''
     \<and> replace_colon (encodeURIComponent s) \<noteq> ''..''"
proof -
  have a: "replace_colon (encodeURIComponent s) \<noteq> []"
    using assms(1) by (simp add: replace_colon_nonempty encodeURIComponent_nonempty)
  have b: "replace_colon (encodeURIComponent s) \<noteq> ''.''"
  proof
    assume "replace_colon (encodeURIComponent s) = ''.''"
    then have "s = ''.''" by (rule encoded_dots) simp
    with assms(2) show False by simp
  qed
  have c: "replace_colon (encodeURIComponent s) \<noteq> ''..''"
  proof
    assume "replace_colon (encodeURIComponent s) = ''..''"
    then have "s = ''..''" by (rule encoded_dots) simp
    with assms(3) show False by simp
  qed
  from a b c show ?thesis by simp
qed

lemma encode_segment_plain:
  "CHR ''/'' \<notin> set seg \<Longrightarrow> encode_segment seg = replace_colon (encodeURIComponent seg)"
  by (simp add: encode_segment_def split_on_no_sep)

lemma split_on_pieces: "\<forall>s\<in>set (split_on d xs). d \<notin> set s"
proof (induction xs)
  case Nil
  show ?case by simp
next
  case (Cons c xs)
  show ?case
  proof (cases "c = d")
    case True
    with Cons show ?thesis by simp
  next
    case False
    obtain r rs where sp: "split_on d xs = r # rs"
      by (cases "split_on d xs") (cases xs; simp split: if_splits list.splits)+
    with Cons have "d \<notin> set r" "\<forall>s\<in>set rs. d \<notin> set s" by simp_all
    with False sp show ?thesis by simp
  qed
qed

lemma sanitizePath_segments:
  assumes "\<forall>seg\<in>set parts. CHR ''/'' \<notin> set seg"
  shows "(filter (\<lambda>seg. seg \<noteq> [] \<and> seg \<noteq> ''.'' \<and> seg \<noteq> ''..'') parts = []
            \<and> sanitizePath parts = []
          \<or> split_on CHR ''/'' (sanitizePath parts)
              = map (\<lambda>seg. replace_colon (encodeURIComponent seg))
                  (filter (\<lambda>seg. seg \<noteq> [] \<and> seg \<noteq> ''.'' \<and> seg \<noteq> ''..'') parts)
            \<and> (\<forall>s\<in>set (split_on CHR ''/'' (sanitizePath parts)).
                  s \<noteq> [] \<and> s \<noteq> ''.'' \<and> s \<noteq> ''..''))
       \<and> strip_slashes (sanitizePath parts) = sanitizePath parts"
proof -
  define kept where "kept = filter (\<lambda>seg. seg \<noteq> [] \<and> seg \<noteq> ''.'' \<and> seg \<noteq> ''..'') parts"
  define enc where "enc = map (\<lambda>seg. replace_colon (encodeURIComponent seg)) kept"
  have kept_ok: "\<forall>seg\<in>set kept. CHR ''/'' \<notin> set seg \<and> seg \<noteq> [] \<and> seg \<noteq> ''.'' \<and> seg \<noteq> ''..''"
    using assms by (simp add: kept_def)
  have "map encode_segment kept = enc"
    unfolding enc_def using kept_ok by (simp add: encode_segment_plain)
  then have out: "sanitizePath parts = join_with ''/'' enc"
    by (simp add: sanitizePath_def kept_def)
  have enc_ok: "\<forall>e\<in>set enc. CHR ''/'' \<notin> set e \<and> e \<noteq> [] \<and> e \<noteq> ''.'' \<and> e \<noteq> ''..''"
    unfolding enc_def using kept_ok encoded_no_slash encoded_not_dot_segment by auto
  show ?thesis
  proof (cases "kept = []")
    case True
    then have "sanitizePath parts = []" by (simp add: out enc_def)
    with True show ?thesis by (simp add: kept_def strip_slashes_def)
  next
    case False
    then have ne: "enc \<noteq> []" by (simp add: enc_def)
    have sp: "split_on CHR ''/'' (sanitizePath parts) = enc"
      unfolding out using ne enc_ok by (intro split_on_join) auto
    have ends: "join_with ''/'' enc \<noteq> [] \<and> hd (join_with ''/'' enc) \<noteq> CHR ''/''
        \<and> last (join_with ''/'' enc) \<noteq> CHR ''/''"
      using ne enc_ok by (intro join_with_ends) auto
    then have "strip_slashes (sanitizePath parts) = sanitizePath parts"
      unfolding out by (intro strip_slashes_id) auto
    with sp enc_ok show ?thesis
      unfolding kept_def [symmetric] enc_def [symmetric] by simp
  qed
qed

text \<open>
  Claim C10. For a list of path segments (strings without a slash), \<open>sanitizePath\<close>
  drops every empty, \<open>.\<close> and \<open>..\<close> segment and joins the encoded rest: unless nothing
  is left, the segments of the resulting path are the encodings of the kept segments, in
  order, and none of them is empty, \<open>.\<close> or \<open>..\<close>; the path has no leading or
  trailing slash, so \<open>buildUpstreamURL\<close> embeds it as it is. Every call site passes
  segments of \<open>pathname.split('/').filter(Boolean)\<close>, which contain no slash.
\<close>

theorem sanitizePath_no_dot_segment:
  "((\<forall>seg\<in>set parts. CHR ''/'' \<notin> set seg) \<longrightarrow>
      (filter (\<lambda>seg. seg \<noteq> [] \<and> seg \<noteq> ''.'' \<and> seg \<noteq> ''..'') parts = []
            \<and> sanitizePath parts = []
       \<or> split_on CHR ''/'' (sanitizePath parts)
              = map (\<lambda>seg. replace_colon (encodeURIComponent seg))
                  (filter (\<lambda>seg. seg \<noteq> [] \<and> seg \<noteq> ''.'' \<and> seg \<noteq> ''..'') parts)
            \<and> (\<forall>s\<in>set (split_on CHR ''/'' (sanitizePath parts)).
                  s \<noteq> [] \<and> s \<noteq> ''.'' \<and> s \<noteq> ''..''))
      \<and> strip_slashes (sanitizePath parts) = sanitizePath parts)
   \<and> (\<forall>seg\<in>set (path_segments pathname). CHR ''/'' \<notin> set seg)"
proof -
  have "\<forall>seg\<in>set (path_segments pathname). CHR ''/'' \<notin> set seg"
    using split_on_pieces [of "CHR ''/''" pathname] by (simp add: path_segments_def)
  with sanitizePath_segments [of parts] show ?thesis by blast
qed

theorem sanitizePath_no_dot_segment_witness:
  "sanitizePath [''v1'', ''..'', ''.'', [], ''chat'', ''a b:c''] = ''v1/chat/a%20b:c''
   \<and> strip_slashes ''v1/chat/a%20b:c'' = ''v1/chat/a%20b:c''"
proof -
  let ?parts = "[''v1'', ''..'', ''.'', [], ''chat'', ''a b:c'']"
  have h: "\<forall>seg\<in>set ?parts. CHR ''/'' \<notin> set seg" by simp
  have v: "sanitizePath ?parts = ''v1/chat/a%20b:c''" by code_simp
  from sanitizePath_no_dot_segment [of ?parts "[]"] h
  have "strip_slashes (sanitizePath ?parts) = sanitizePath ?parts" by blast
  with v show ?thesis by simp
qed

section \<open>Upstream executor: proofs\<close>

lemma baseDelay_ge: "100 \<le> baseDelay a"
proof -
  have "(1::real) \<le> 2 ^ a" by simp
  then have "(100::real) \<le> 100 * 2 ^ a" by simp
  then show ?thesis by (simp add: baseDelay_def)
qed

lemma backoffDelay_range:
  assumes "0 \<le> r" and "r < 1"
  shows "0.85 * baseDelay a \<le> backoffDelay a r
     \<and> backoffDelay a r \<le> 1.15 * baseDelay a
     \<and> 100 \<le> backoffDelay a r"
proof -
  define b where "b = baseDelay a"
  have b: "100 \<le> b" unfolding b_def by (rule baseDelay_ge)
  then have b0: "0 \<le> b" by simp
  have lo: "0 \<le> b * r" using b0 assms(1) by simp
  have hi: "b * r \<le> b" using b0 assms(2) by (simp add: mult_left_le)
  have d: "backoffDelay a r = max (b + b * 0.3 * (r - 0.5)) 100"
    by (simp add: backoffDelay_def Let_def b_def)
  have e: "b + b * 0.3 * (r - 0.5) = 0.85 * b + 0.3 * (b * r)"
    by (simp add: field_simps)
  show ?thesis
    unfolding d e b_def [symmetric] using b lo hi by (simp add: max_def)
qed

lemma prepend_delays:
  "delays (fst (prepend [Fetch q, Delay d] x)) = d # delays (fst x)"
  by (simp add: prepend_def)

lemma prepend_attempts:
  "attempts (fst (prepend [Fetch q, Delay d] x)) = Suc (attempts (fst x))"
  by (simp add: prepend_def attempts_def)

lemma prepend_snd: "snd (prepend evs x) = snd x"
  by (simp add: prepend_def)

text \<open>One iteration of the loop: it ends the loop, or it sleeps and goes on.\<close>

lemma retry_loop_step:
  "(\<not> int a \<le> maxR \<and> fst (retry_loop maxR q w a le) = [])
   \<or> (int a \<le> maxR \<and> fst (retry_loop maxR q w a le) = [Fetch q])
   \<or> (int a < maxR \<and> (\<exists>le'. retry_loop maxR q w a le
          = prepend [Fetch q, Delay (backoffDelay a (w_random w a))]
              (retry_loop maxR q w (Suc a) le')))"
  by (subst (1 2 3) retry_loop.simps) (auto split: outcome.splits)

lemma retry_loop_returns:
  "int a \<le> maxR \<Longrightarrow> w_upstream w a = Resolves r \<Longrightarrow> rstatus r < 500 \<Longrightarrow>
   retry_loop maxR q w a le = ([Fetch q], Inr r)"
  by (subst retry_loop.simps) simp

lemma retry_loop_delays:
  "n < length (delays (fst (retry_loop maxR q w a le))) \<Longrightarrow>
   delays (fst (retry_loop maxR q w a le)) ! n = backoffDelay (a + n) (w_random w (a + n))"
proof (induction "nat (maxR + 1 - int a)" arbitrary: a le n rule: less_induct)
  case less
  from retry_loop_step [of a maxR q w le] less.prems
  obtain le' where lt: "int a < maxR"
    and eq: "retry_loop maxR q w a le
          = prepend [Fetch q, Delay (backoffDelay a (w_random w a))]
              (retry_loop maxR q w (Suc a) le')"
    by auto
  show ?case
  proof (cases n)
    case 0
    then show ?thesis by (simp add: eq prepend_delays)
  next
    case (Suc m)
    with less.prems have m: "m < length (delays (fst (retry_loop maxR q w (Suc a) le')))"
      by (simp add: eq prepend_delays)
    have "nat (maxR + 1 - int (Suc a)) < nat (maxR + 1 - int a)" using lt by simp
    from less.hyps [OF this m] Suc show ?thesis
      by (simp add: eq prepend_delays)
  qed
qed

lemma retry_loop_attempts:
  "int a + int (attempts (fst (retry_loop maxR q w a le))) \<le> max (maxR + 1) (int a)"
proof (induction "nat (maxR + 1 - int a)" arbitrary: a le rule: less_induct)
  case less
  from retry_loop_step [of a maxR q w le]
  consider "fst (retry_loop maxR q w a le) = []"
    | "int a \<le> maxR" "fst (retry_loop maxR q w a le) = [Fetch q]"
    | le' where "int a < maxR" "retry_loop maxR q w a le
          = prepend [Fetch q, Delay (backoffDelay a (w_random w a))]
              (retry_loop maxR q w (Suc a) le')"
    by blast
  then show ?case
  proof cases
    case 1
    then show ?thesis by (simp add: attempts_def)
  next
    case 2
    then show ?thesis by (simp add: attempts_def)
  next
    case 3
    have "nat (maxR + 1 - int (Suc a)) < nat (maxR + 1 - int a)" using 3(1) by simp
    from less.hyps [OF this, of le'] 3 show ?thesis
      by (simp add: prepend_attempts)
  qed
qed

lemma retry_loop_delay_scan:
  "delay_scan slept (fst (retry_loop maxR q w a le)) n = Some d \<Longrightarrow>
   (n = 0 \<and> slept = Some d)
   \<or> (\<exists>m. n = Suc m \<and> d = backoffDelay (a + m) (w_random w (a + m)))"
proof (induction "nat (maxR + 1 - int a)" arbitrary: a le n slept rule: less_induct)
  case less
  from retry_loop_step [of a maxR q w le]
  consider "fst (retry_loop maxR q w a le) = []"
    | "fst (retry_loop maxR q w a le) = [Fetch q]"
    | le' where "int a < maxR" "retry_loop maxR q w a le
          = prepend [Fetch q, Delay (backoffDelay a (w_random w a))]
              (retry_loop maxR q w (Suc a) le')"
    by blast
  then show ?case
  proof cases
    case 1
    with less.prems show ?thesis by simp
  next
    case 2
    with less.prems show ?thesis by (cases n) simp_all
  next
    case 3
    show ?thesis
    proof (cases n)
      case 0
      with less.prems 3(2) show ?thesis by (simp add: prepend_def)
    next
      case (Suc m)
      with less.prems 3(2)
      have scan: "delay_scan (Some (backoffDelay a (w_random w a)))
          (fst (retry_loop maxR q w (Suc a) le')) m = Some d"
        by (simp add: prepend_def)
      have "nat (maxR + 1 - int (Suc a)) < nat (maxR + 1 - int a)" using 3(1) by simp
      from less.hyps [OF this scan]
      have "(m = 0 \<and> backoffDelay a (w_random w a) = d)
          \<or> (\<exists>m'. m = Suc m' \<and> d = backoffDelay (Suc a + m') (w_random w (Suc a + m')))"
        by simp
      then show ?thesis
      proof
        assume "m = 0 \<and> backoffDelay a (w_random w a) = d"
        with Suc show ?thesis by simp
      next
        assume "\<exists>m'. m = Suc m' \<and> d = backoffDelay (Suc a + m') (w_random w (Suc a + m'))"
        then obtain m' where "m = Suc m'"
          and "d = backoffDelay (Suc a + m') (w_random w (Suc a + m'))" by blast
        with Suc show ?thesis by simp
      qed
    qed
  qed
qed

lemma fetchWithRetry_delay_before:
  "delay_before (fst (fetchWithRetry request maxR methods w)) n = Some d \<Longrightarrow>
   \<exists>m. n = Suc m \<and> d = backoffDelay m (w_random w m)"
proof (cases "maxR \<le> 0 \<or> out_method request
    \<notin> set (case methods of None \<Rightarrow> [''GET'', ''HEAD'', ''OPTIONS''] | Some ms \<Rightarrow> ms)")
  case True
  assume a: "delay_before (fst (fetchWithRetry request maxR methods w)) n = Some d"
  from True have "fst (fetchWithRetry request maxR methods w) = [Fetch request]"
    by (simp add: fetchWithRetry_def Let_def)
  with a show ?thesis by (cases n) (simp_all add: delay_before_def)
next
  case False
  assume a: "delay_before (fst (fetchWithRetry request maxR methods w)) n = Some d"
  from False have run: "fetchWithRetry request maxR methods w
      = retry_loop maxR request w 0 None"
    by (simp add: fetchWithRetry_def Let_def)
  from a have "delay_scan None (fst (retry_loop maxR request w 0 None)) n = Some d"
    by (simp add: delay_before_def run)
  from retry_loop_delay_scan [OF this] show ?thesis by simp
qed

text \<open>
  Claim C4, as the code has it. In every run of \<open>fetchWithRetry\<close>, where
  \<open>Math.random()\<close> returns values in [0, 1): no delay is slept before outbound attempt
  0, and the delay slept before outbound attempt \<open>n + 1\<close> (computed in the loop
  iteration \<open>attempt = n\<close>, after attempt \<open>n\<close> has failed; it is the \<open>n\<close>-th delay of
  the run) lies between 0.85 and 1.15 times \<open>min(100 * 2^n, 5000)\<close> milliseconds and is
  at least 100 ms. The number of outbound calls is at most \<open>max(maxRetries, 0) + 1\<close>,
  which is \<open>maxRetries + 1\<close> when \<open>maxRetries\<close> is not negative.
\<close>

theorem backoff_delay_and_attempt_bounds:
  assumes "\<forall>i. 0 \<le> w_random w i \<and> w_random w i < 1"
  shows "delay_before (fst (fetchWithRetry request maxR methods w)) 0 = None
       \<and> (\<forall>n d. delay_before (fst (fetchWithRetry request maxR methods w)) (Suc n) = Some d
            \<longrightarrow> 0.85 * min (100 * 2 ^ n) 5000 \<le> d \<and> d \<le> 1.15 * min (100 * 2 ^ n) 5000
                \<and> 100 \<le> d)
       \<and> (\<forall>n < length (delays (fst (fetchWithRetry request maxR methods w))).
            0.85 * min (100 * 2 ^ n) 5000 \<le> delays (fst (fetchWithRetry request maxR methods w)) ! n
          \<and> delays (fst (fetchWithRetry request maxR methods w)) ! n \<le> 1.15 * min (100 * 2 ^ n) 5000
          \<and> 100 \<le> delays (fst (fetchWithRetry request maxR methods w)) ! n)
       \<and> (0 \<le> maxR \<longrightarrow>
            int (attempts (fst (fetchWithRetry request maxR methods w))) \<le> maxR + 1)
       \<and> int (attempts (fst (fetchWithRetry request maxR methods w))) \<le> max maxR 0 + 1"
proof -
  have range: "0.85 * min (100 * 2 ^ n) 5000 \<le> backoffDelay n (w_random w n)
      \<and> backoffDelay n (w_random w n) \<le> 1.15 * min (100 * 2 ^ n) 5000
      \<and> 100 \<le> backoffDelay n (w_random w n)" for n
  proof -
    have "0 \<le> w_random w n" "w_random w n < 1" using assms by simp_all
    then show ?thesis
      using backoffDelay_range [of "w_random w n" n] by (simp add: baseDelay_def)
  qed
  have first: "delay_before (fst (fetchWithRetry request maxR methods w)) 0 = None"
  proof (cases "delay_before (fst (fetchWithRetry request maxR methods w)) 0")
    case None
    then show ?thesis .
  next
    case (Some d)
    from fetchWithRetry_delay_before [OF this] show ?thesis by simp
  qed
  have before: "0.85 * min (100 * 2 ^ n) 5000 \<le> d \<and> d \<le> 1.15 * min (100 * 2 ^ n) 5000
        \<and> 100 \<le> d"
    if "delay_before (fst (fetchWithRetry request maxR methods w)) (Suc n) = Some d" for n d
  proof -
    from fetchWithRetry_delay_before [OF that]
    have "d = backoffDelay n (w_random w n)" by simp
    with range [of n] show ?thesis by simp
  qed
  have rest: "(\<forall>n < length (delays (fst (fetchWithRetry request maxR methods w))).
            0.85 * min (100 * 2 ^ n) 5000 \<le> delays (fst (fetchWithRetry request maxR methods w)) ! n
          \<and> delays (fst (fetchWithRetry request maxR methods w)) ! n \<le> 1.15 * min (100 * 2 ^ n) 5000
          \<and> 100 \<le> delays (fst (fetchWithRetry request maxR methods w)) ! n)
       \<and> (0 \<le> maxR \<longrightarrow>
            int (attempts (fst (fetchWithRetry request maxR methods w))) \<le> maxR + 1)
       \<and> int (attempts (fst (fetchWithRetry request maxR methods w))) \<le> max maxR 0 + 1"
  proof (cases "maxR \<le> 0 \<or> out_method request
      \<notin> set (case methods of None \<Rightarrow> [''GET'', ''HEAD'', ''OPTIONS''] | Some ms \<Rightarrow> ms)")
    case True
    then have "fst (fetchWithRetry request maxR methods w) = [Fetch request]"
      by (simp add: fetchWithRetry_def Let_def)
    then show ?thesis by (simp add: attempts_def)
  next
    case False
    then have run: "fetchWithRetry request maxR methods w = retry_loop maxR request w 0 None"
      by (simp add: fetchWithRetry_def Let_def)
    from False have pos: "0 < maxR" by simp
    have d: "0.85 * min (100 * 2 ^ n) 5000 \<le> delays (fst (retry_loop maxR request w 0 None)) ! n
          \<and> delays (fst (retry_loop maxR request w 0 None)) ! n \<le> 1.15 * min (100 * 2 ^ n) 5000
          \<and> 100 \<le> delays (fst (retry_loop maxR request w 0 None)) ! n"
      if "n < length (delays (fst (retry_loop maxR request w 0 None)))" for n
    proof -
      have "delays (fst (retry_loop maxR request w 0 None)) ! n
          = backoffDelay n (w_random w n)"
        using retry_loop_delays [OF that] by simp
      with range [of n] show ?thesis by simp
    qed
    have "int (attempts (fst (retry_loop maxR request w 0 None))) \<le> maxR + 1"
      using retry_loop_attempts [of 0 maxR request w None] pos by simp
    with d pos show ?thesis unfolding run by simp
  qed
  from first before rest show ?thesis by blast
qed

lemma example_run:
  "fetchWithRetry example_get 5 None example_world
     = ([Fetch example_get, Delay 100, Fetch example_get, Delay 170, Fetch example_get],
        Inr (example_response 404))"
proof -
  have d0: "backoffDelay 0 0 = 100" by (simp add: backoffDelay_def baseDelay_def)
  have d1: "backoffDelay (Suc 0) 0 = 170" by (simp add: backoffDelay_def baseDelay_def)
  have up0: "w_upstream example_world 0 = Resolves (example_response 503)"
    and up1: "w_upstream example_world (Suc 0) = Resolves (example_response 503)"
    and up2: "w_upstream example_world (Suc (Suc 0)) = Resolves (example_response 404)"
    and rnd: "w_random example_world i = 0" for i
    by (simp_all add: example_world_def)
  have st: "rstatus (example_response c) = c" for c
    by (simp add: example_response_def)
  have r2: "retry_loop 5 example_get example_world (Suc (Suc 0)) le
      = ([Fetch example_get], Inr (example_response 404))" for le
    by (rule retry_loop_returns) (simp_all add: up2 st)
  have r1: "retry_loop 5 example_get example_world (Suc 0) le
      = ([Fetch example_get, Delay 170, Fetch example_get], Inr (example_response 404))" for le
    by (subst retry_loop.simps) (simp add: up1 rnd st prepend_def d1 r2)
  have r0: "retry_loop 5 example_get example_world 0 None
      = ([Fetch example_get, Delay 100, Fetch example_get, Delay 170, Fetch example_get],
         Inr (example_response 404))"
    by (subst retry_loop.simps) (simp add: up0 rnd st prepend_def d0 r1)
  have m: "out_method example_get = ''GET''" by (simp add: example_get_def)
  show ?thesis
    by (simp add: fetchWithRetry_def r0 m)
qed

theorem backoff_delay_and_attempt_bounds_witness:
  "delay_before (fst (fetchWithRetry example_get 5 None example_world)) (Suc 1) = Some 170
   \<and> 0.85 * min (100 * 2 ^ 1) 5000 \<le> (170::real)
   \<and> (170::real) \<le> 1.15 * min (100 * 2 ^ 1) 5000
   \<and> delays (fst (fetchWithRetry example_get 5 None example_world)) ! 1 = 170
   \<and> int (attempts (fst (fetchWithRetry example_get 5 None example_world))) \<le> 5 + 1"
proof -
  have h1: "\<forall>i. 0 \<le> w_random example_world i \<and> w_random example_world i < 1"
    by (simp add: example_world_def)
  have h2: "(0::int) \<le> 5" by simp
  have b: "delay_before (fst (fetchWithRetry example_get 5 None example_world)) (Suc 1)
      = Some 170"
    by (simp add: example_run delay_before_def)
  have len: "1 < length (delays (fst (fetchWithRetry example_get 5 None example_world)))"
    by (simp add: example_run)
  from backoff_delay_and_attempt_bounds [OF h1, of example_get 5 None] b h2
  have "0.85 * min (100 * 2 ^ 1) 5000 \<le> (170::real)"
    and "(170::real) \<le> 1.15 * min (100 * 2 ^ 1) 5000"
    and "int (attempts (fst (fetchWithRetry example_get 5 None example_world))) \<le> 5 + 1"
    by blast+
  moreover have "delays (fst (fetchWithRetry example_get 5 None example_world)) ! 1 = 170"
    by (simp add: example_run)
  ultimately show ?thesis using b by blast
qed

text \<open>
  The claim as stated fails twice. The delay slept before outbound attempt 1 is computed
  with \<open>attempt = 0\<close>: in the example run it is 100 ms (it is below 115 ms for every
  random value), outside 0.85 to 1.15 times \<open>min(100 * 2^1, 5000)\<close>, that is 170 to
  230 ms. And with \<open>maxRetries = -1\<close> one outbound call is made, more than
  \<open>maxRetries + 1 = 0\<close>.
\<close>

theorem backoff_index_and_negative_bound_counterexample:
  "delay_before (fst (fetchWithRetry example_get 5 None example_world)) 1 = Some 100
   \<and> \<not> (0.85 * min (100 * 2 ^ 1) 5000 \<le> (100::real))
   \<and> attempts (fst (fetchWithRetry example_get (- 1) None example_world)) = 1
   \<and> \<not> (int (attempts (fst (fetchWithRetry example_get (- 1) None example_world)))
          \<le> - 1 + 1)"
proof -
  have a: "delay_before (fst (fetchWithRetry example_get 5 None example_world)) 1 = Some 100"
    by (simp add: example_run delay_before_def)
  have b: "\<not> (0.85 * min (100 * 2 ^ 1) 5000 \<le> (100::real))" by simp
  have c: "attempts (fst (fetchWithRetry example_get (- 1) None example_world)) = 1"
    by (simp add: fetchWithRetry_def attempts_def)
  from a b c show ?thesis by simp
qed

lemma retry_loop_client_error:
  "a \<le> i \<Longrightarrow> i - a < attempts (fst (retry_loop maxR q w a le)) \<Longrightarrow>
   w_upstream w i = Resolves r \<Longrightarrow> rstatus r < 500 \<Longrightarrow>
   snd (retry_loop maxR q w a le) = Inr r
     \<and> attempts (fst (retry_loop maxR q w a le)) = Suc (i - a)"
proof (induction "i - a" arbitrary: a le)
  case 0
  then have ia: "i = a" by simp
  from retry_loop_step [of a maxR q w le] 0(3)
  have "int a \<le> maxR" by (auto simp: attempts_def)
  from retry_loop_returns [OF this, of w r q le] 0(4,5) ia show ?case
    by (simp add: attempts_def)
next
  case (Suc k)
  then have lt: "a < i" by simp
  from retry_loop_step [of a maxR q w le] Suc(4) Suc(2)
  obtain le' where eq: "retry_loop maxR q w a le
          = prepend [Fetch q, Delay (backoffDelay a (w_random w a))]
              (retry_loop maxR q w (Suc a) le')"
    by (auto simp: attempts_def)
  have k: "k = i - Suc a" using Suc(2) by simp
  have le: "Suc a \<le> i" using lt by simp
  have m: "i - Suc a < attempts (fst (retry_loop maxR q w (Suc a) le'))"
    using Suc(4) Suc(2) by (simp add: eq prepend_attempts)
  from Suc(1) [OF k le m Suc(5) Suc(6)] lt show ?case
    by (simp add: eq prepend_attempts prepend_snd Suc_diff_Suc)
qed

text \<open>
  Claim C5. A second outbound call is made only if \<open>maxRetries > 0\<close> and the request
  method is among the retryable methods; and whenever an outbound call that was made is
  answered with a 4xx status, that response is what \<open>fetchWithRetry\<close> returns and that
  call is the last one, whatever \<open>maxRetries\<close> is.
\<close>

theorem client_error_never_retried:
  "(1 < attempts (fst (fetchWithRetry request maxR methods w)) \<longrightarrow>
      0 < maxR
      \<and> out_method request
          \<in> set (case methods of None \<Rightarrow> [''GET'', ''HEAD'', ''OPTIONS''] | Some ms \<Rightarrow> ms))
   \<and> (\<forall>i r. i < attempts (fst (fetchWithRetry request maxR methods w))
          \<and> w_upstream w i = Resolves r \<and> 400 \<le> rstatus r \<and> rstatus r < 500 \<longrightarrow>
        snd (fetchWithRetry request maxR methods w) = Inr r
        \<and> attempts (fst (fetchWithRetry request maxR methods w)) = Suc i)"
proof (cases "maxR \<le> 0 \<or> out_method request
    \<notin> set (case methods of None \<Rightarrow> [''GET'', ''HEAD'', ''OPTIONS''] | Some ms \<Rightarrow> ms)")
  case True
  then have run: "fetchWithRetry request maxR methods w
      = ([Fetch request],
         case w_upstream w 0 of Resolves response \<Rightarrow> Inr response | Rejects error \<Rightarrow> Inl error)"
    by (simp add: fetchWithRetry_def Let_def)
  show ?thesis unfolding run by (auto simp: attempts_def)
next
  case False
  then have run: "fetchWithRetry request maxR methods w = retry_loop maxR request w 0 None"
    by (simp add: fetchWithRetry_def Let_def)
  have "snd (retry_loop maxR request w 0 None) = Inr r
      \<and> attempts (fst (retry_loop maxR request w 0 None)) = Suc i"
    if "i < attempts (fst (retry_loop maxR request w 0 None))"
      and "w_upstream w i = Resolves r" and "rstatus r < 500" for i r
    using retry_loop_client_error [of 0 i maxR request w None r] that by simp
  with False show ?thesis unfolding run by auto
qed

theorem client_error_never_retried_witness:
  "snd (fetchWithRetry example_get 5 None example_world) = Inr (example_response 404)
   \<and> attempts (fst (fetchWithRetry example_get 5 None example_world)) = 3
   \<and> out_method example_get \<in> set [''GET'', ''HEAD'', ''OPTIONS'']"
proof -
  have a: "attempts (fst (fetchWithRetry example_get 5 None example_world)) = 3"
    by (simp add: example_run attempts_def)
  have h: "2 < attempts (fst (fetchWithRetry example_get 5 None example_world))
      \<and> w_upstream example_world 2 = Resolves (example_response 404)
      \<and> 400 \<le> rstatus (example_response 404) \<and> rstatus (example_response 404) < 500"
    by (simp add: a) (simp add: example_world_def example_response_def)
  have g: "1 < attempts (fst (fetchWithRetry example_get 5 None example_world))"
    by (simp add: a)
  from client_error_never_retried [of example_get 5 None example_world] h g
  have "snd (fetchWithRetry example_get 5 None example_world) = Inr (example_response 404)"
    and "out_method example_get \<in> set [''GET'', ''HEAD'', ''OPTIONS'']"
    by auto
  with a show ?thesis by blast
qed

section \<open>Routing decision engine: proofs\<close>

text \<open>
  Claim C3, as the code has it. A request is classified as streaming exactly when the
  query has \<open>stream=true\<close>, or the \<open>Accept\<close> header contains \<open>text/event-stream\<close>
  (both whatever the path is), or the path contains a streaming-API path and the request
  is a \<open>POST\<close> with a body, a content type containing \<open>application/json\<close> and a
  parsed body whose \<open>stream\<close> member is \<open>true\<close>. A streaming request whose method
  is not \<open>GET\<close>, \<open>HEAD\<close> or \<open>OPTIONS\<close> is decided for the fast path under the
  streaming rule.
\<close>

theorem streaming_classification:
  "(isStreamingRequest req \<longleftrightarrow>
      map_of (url_searchParams req) ''stream'' = Some ''true''
      \<or> (\<exists>accept. hget (req_headers req) ''accept'' = Some accept
            \<and> str_includes accept ''text/event-stream'')
      \<or> (list_ex (\<lambda>path. str_includes (url_pathname req) path) STREAMING_PATHS
          \<and> req_method req = ''POST''
          \<and> (\<exists>contentType. hget (req_headers req) ''content-type'' = Some contentType
                \<and> str_includes contentType ''application/json'')
          \<and> (\<exists>body. req_body req = Some (Parsed body) \<and> stream_is_true body)))
   \<and> (req_method req \<notin> set [''GET'', ''HEAD'', ''OPTIONS''] \<and> isStreamingRequest req \<longrightarrow>
        shouldForwardToBackground w req proxy context
          = \<lparr>shouldForward = False, why = StreamingRequest, estimatedDuration = None\<rparr>)"
proof -
  have accept: "accepts_event_stream req \<longleftrightarrow>
      (\<exists>accept. hget (req_headers req) ''accept'' = Some accept
            \<and> str_includes accept ''text/event-stream'')"
    by (simp add: accepts_event_stream_def split: option.splits)
  have body: "body_stream_flag req \<longleftrightarrow>
      req_method req = ''POST''
      \<and> (\<exists>contentType. hget (req_headers req) ''content-type'' = Some contentType
            \<and> str_includes contentType ''application/json'')
      \<and> (\<exists>body. req_body req = Some (Parsed body) \<and> stream_is_true body)"
    by (auto simp: body_stream_flag_def split: option.splits body_json.splits)
  have cls: "isStreamingRequest req \<longleftrightarrow>
      map_of (url_searchParams req) ''stream'' = Some ''true''
      \<or> accepts_event_stream req
      \<or> (isStreamingPath (url_pathname req) \<and> body_stream_flag req)"
    by (auto simp: isStreamingRequest_def)
  have rule: "req_method req \<notin> set [''GET'', ''HEAD'', ''OPTIONS''] \<and> isStreamingRequest req \<longrightarrow>
        shouldForwardToBackground w req proxy context
          = \<lparr>shouldForward = False, why = StreamingRequest, estimatedDuration = None\<rparr>"
    by (simp add: shouldForwardToBackground_def)
  show ?thesis
    using rule unfolding cls accept body isStreamingPath_def by blast
qed

theorem streaming_classification_witness:
  "shouldForwardToBackground example_world chat_stream_body openai_proxy
     \<lparr>ctx_reqId = ''r'', ctx_service = ''openai'', ctx_method = ''POST'',
      ctx_path = ''/gateway/openai/v1/chat/completions''\<rparr>
     = \<lparr>shouldForward = False, why = StreamingRequest, estimatedDuration = None\<rparr>"
proof -
  have m: "req_method chat_stream_body \<notin> set [''GET'', ''HEAD'', ''OPTIONS'']"
    by (simp add: chat_stream_body_def example_request_def)
  have s: "isStreamingRequest chat_stream_body" by code_simp
  from streaming_classification [of chat_stream_body example_world openai_proxy
      "\<lparr>ctx_reqId = ''r'', ctx_service = ''openai'', ctx_method = ''POST'',
        ctx_path = ''/gateway/openai/v1/chat/completions''\<rparr>"] m s
  show ?thesis by blast
qed

text \<open>
  The claim as stated fails: \<open>POST /gateway/openai/v1/embeddings?stream=true\<close> is
  classified as streaming, and so decided for the fast path, although its path is in no
  streaming-API path.
\<close>

theorem streaming_path_not_required_counterexample:
  "\<not> (isStreamingRequest embeddings_stream_query \<longleftrightarrow>
        list_ex (\<lambda>path. str_includes (url_pathname embeddings_stream_query) path)
          STREAMING_PATHS
        \<and> ((\<exists>accept. hget (req_headers embeddings_stream_query) ''accept'' = Some accept
                \<and> str_includes accept ''text/event-stream'')
           \<or> map_of (url_searchParams embeddings_stream_query) ''stream'' = Some ''true''
           \<or> (\<exists>body. req_body embeddings_stream_query = Some (Parsed body)
                 \<and> stream_is_true body)))
   \<and> why (shouldForwardToBackground example_world embeddings_stream_query openai_proxy
        \<lparr>ctx_reqId = ''r'', ctx_service = ''openai'', ctx_method = ''POST'',
         ctx_path = ''/gateway/openai/v1/embeddings''\<rparr>) = StreamingRequest"
proof -
  have a: "isStreamingRequest embeddings_stream_query" by code_simp
  have b: "\<not> list_ex (\<lambda>path. str_includes (url_pathname embeddings_stream_query) path)
          STREAMING_PATHS" by code_simp
  have c: "why (shouldForwardToBackground example_world embeddings_stream_query openai_proxy
        \<lparr>ctx_reqId = ''r'', ctx_service = ''openai'', ctx_method = ''POST'',
         ctx_path = ''/gateway/openai/v1/embeddings''\<rparr>) = StreamingRequest"
    using a by (simp add: shouldForwardToBackground_def embeddings_stream_query_def
        example_request_def)
  from a b c show ?thesis by blast
qed

section \<open>Headers: lookup after update\<close>

lemma hget_hset:
  "hget (hset hs k v) k' = (if toLowerCase k' = toLowerCase k then Some v else hget hs k')"
  by (simp add: hget_def hset_def AList.update_conv')

lemma hset_all_Nil: "hset_all hs [] = hs"
  by (simp add: hset_all_def)

lemma hset_all_Cons: "hset_all hs ((k, v) # kvs) = hset_all (hset hs k v) kvs"
  by (simp add: hset_all_def)

lemma lower_names:
  "toLowerCase ''Content-Type'' = ''content-type''"
  "toLowerCase ''X-Request-Id'' = ''x-request-id''"
  "toLowerCase ''Access-Control-Allow-Origin'' = ''access-control-allow-origin''"
  "toLowerCase ''Access-Control-Allow-Methods'' = ''access-control-allow-methods''"
  "toLowerCase ''Access-Control-Allow-Headers'' = ''access-control-allow-headers''"
  "toLowerCase ''Access-Control-Expose-Headers'' = ''access-control-expose-headers''"
  "toLowerCase ''Access-Control-Max-Age'' = ''access-control-max-age''"
  "toLowerCase ''Cache-Control'' = ''cache-control''"
  "toLowerCase ''X-Processing-Mode'' = ''x-processing-mode''"
  "toLowerCase ''X-Processing-Time'' = ''x-processing-time''"
  "toLowerCase ''X-Gateway-Version'' = ''x-gateway-version''"
  "toLowerCase ''X-Content-Type-Options'' = ''x-content-type-options''"
  "toLowerCase ''X-Frame-Options'' = ''x-frame-options''"
  "toLowerCase ''X-Accel-Buffering'' = ''x-accel-buffering''"
  "toLowerCase ''access-control-allow-origin'' = ''access-control-allow-origin''"
  "toLowerCase ''access-control-allow-methods'' = ''access-control-allow-methods''"
  "toLowerCase ''access-control-allow-headers'' = ''access-control-allow-headers''"
  "toLowerCase ''access-control-expose-headers'' = ''access-control-expose-headers''"
  "toLowerCase ''access-control-max-age'' = ''access-control-max-age''"
  "toLowerCase ''x-request-id'' = ''x-request-id''"
  "toLowerCase ''x-processing-mode'' = ''x-processing-mode''"
  "toLowerCase ''x-processing-time'' = ''x-processing-time''"
  by code_simp+

lemma hget_Nil: "hget [] k = None"
  by (simp add: hget_def)

lemmas hget_lits = hset_all_Nil hset_all_Cons hget_hset hget_Nil lower_names

lemma cors_over:
  "hget (hset_all h (createCorsHeaders env)) ''access-control-allow-origin''
     = Some (ALLOWED_ORIGIN env)"
  "hget (hset_all h (createCorsHeaders env)) ''x-request-id'' = hget h ''x-request-id''"
  "hget (hset_all h (createCorsHeaders env)) ''x-processing-mode'' = hget h ''x-processing-mode''"
  "hget (hset_all h (createCorsHeaders env)) ''x-processing-time'' = hget h ''x-processing-time''"
proof -
  have l: "createCorsHeaders env =
     [(''access-control-allow-origin'', ALLOWED_ORIGIN env),
      (''access-control-allow-methods'', ''GET, POST, PUT, DELETE, OPTIONS, PATCH, HEAD''),
      (''access-control-allow-headers'', ''*''),
      (''access-control-expose-headers'',
         ''Content-Type, Content-Length, X-Request-Id, X-Processing-Mode, X-Processing-Time''),
      (''access-control-max-age'', ''86400'')]"
    by (simp add: createCorsHeaders_def hset_all_def hset_def lower_names)
  show "hget (hset_all h (createCorsHeaders env)) ''access-control-allow-origin''
     = Some (ALLOWED_ORIGIN env)"
    "hget (hset_all h (createCorsHeaders env)) ''x-request-id'' = hget h ''x-request-id''"
    "hget (hset_all h (createCorsHeaders env)) ''x-processing-mode'' = hget h ''x-processing-mode''"
    "hget (hset_all h (createCorsHeaders env)) ''x-processing-time'' = hget h ''x-processing-time''"
    unfolding l by (simp_all add: hget_lits)
qed

lemma cors_origin:
  "hget (createCorsHeaders env) ''access-control-allow-origin'' = Some (ALLOWED_ORIGIN env)"
  by (simp add: createCorsHeaders_def hget_lits)

lemma error_response_headers:
  "hget (res_headers (createErrorResponse env code msg rid det)) ''access-control-allow-origin''
     = Some (ALLOWED_ORIGIN env)"
  "hget (res_headers (createErrorResponse env code msg rid det)) ''x-request-id'' = Some rid"
  "res_body (createErrorResponse env code msg rid det) = ErrorJson msg rid code det"
  by (simp_all add: createErrorResponse_def hget_lits)

lemma error_response_bare:
  "hget (res_headers (createErrorResponse env code msg rid det)) ''x-processing-mode'' = None"
  "hget (res_headers (createErrorResponse env code msg rid det)) ''x-processing-time'' = None"
  by (simp_all add: createErrorResponse_def hget_lits)

lemma edge_response_headers:
  fixes env uh rid el body code st
  defines "res \<equiv> createStreamingResponse body code st
      (hset (processResponseHeaders env uh rid ''edge'') ''X-Processing-Time'' el)"
  shows "hget (res_headers res) ''access-control-allow-origin'' = Some (ALLOWED_ORIGIN env)"
    and "hget (res_headers res) ''x-request-id'' = Some rid"
    and "hget (res_headers res) ''x-processing-mode'' = Some ''edge''"
    and "hget (res_headers res) ''x-processing-time'' = Some el"
  unfolding res_def createStreamingResponse_def processResponseHeaders_def Let_def
  by (simp_all add: hget_lits cors_over)

lemma background_response_headers:
  fixes env bh rid el
  defines "hs \<equiv> hset_all
      (hset_all (hset_all [] bh)
         [(''X-Request-Id'', rid), (''X-Processing-Mode'', ''background''),
          (''X-Processing-Time'', el)])
      (createCorsHeaders env)"
  shows "hget hs ''access-control-allow-origin'' = Some (ALLOWED_ORIGIN env)"
    and "hget hs ''x-request-id'' = Some rid"
    and "hget hs ''x-processing-mode'' = Some ''background''"
    and "hget hs ''x-processing-time'' = Some el"
  unfolding hs_def by (simp_all add: cors_over hget_lits)

section \<open>Dispatch controller: proofs\<close>

lemma handleInEdge_response:
  assumes "snd (handleInEdge env w req context proxy userPath search) = Inr res"
  shows "hget (res_headers res) ''access-control-allow-origin'' = Some (ALLOWED_ORIGIN env)"
    and "hget (res_headers res) ''x-request-id'' = Some (ctx_reqId context)"
    and "res_body res = Relayed b e \<Longrightarrow>
           hget (res_headers res) ''x-processing-mode'' = Some ''edge''
           \<and> hget (res_headers res) ''x-processing-time'' = Some (w_elapsed w)"
  using assms
  by (auto simp: handleInEdge_def Let_def edge_response_headers error_response_headers
      split: sum.splits if_splits)

lemma forwardToBackground_response:
  assumes "snd (forwardToBackground env w req context proxy) = Inr res"
  shows "hget (res_headers res) ''access-control-allow-origin'' = Some (ALLOWED_ORIGIN env)"
    and "hget (res_headers res) ''x-request-id'' = Some (ctx_reqId context)"
    and "res_body res = Relayed b e \<Longrightarrow>
           hget (res_headers res) ''x-processing-mode'' \<in> {Some ''edge'', Some ''background''}
           \<and> hget (res_headers res) ''x-processing-time'' = Some (w_elapsed w)"
proof -
  note edge = handleInEdge_response(3)
  show "hget (res_headers res) ''access-control-allow-origin'' = Some (ALLOWED_ORIGIN env)"
    using assms
    by (auto simp: forwardToBackground_def Let_def background_response_headers
        error_response_headers handleInEdge_response(1)
        split: outcome.splits if_splits)
  show "hget (res_headers res) ''x-request-id'' = Some (ctx_reqId context)"
    using assms
    by (auto simp: forwardToBackground_def Let_def background_response_headers
        error_response_headers handleInEdge_response(2)
        split: outcome.splits if_splits)
  show "hget (res_headers res) ''x-processing-mode'' \<in> {Some ''edge'', Some ''background''}
           \<and> hget (res_headers res) ''x-processing-time'' = Some (w_elapsed w)"
    if "res_body res = Relayed b e"
    using assms that edge [of env w req "context" proxy _ _ res b e]
    by (auto simp: forwardToBackground_def Let_def background_response_headers
        error_response_headers
        split: outcome.splits if_splits)
qed

lemma dispatch_response:
  assumes "run = forwardToBackground env w req c proxy
      \<or> run = handleInEdge env w req c proxy userPath search"
  defines "res \<equiv> (case snd run of
        Inr r \<Rightarrow> r
      | Inl error \<Rightarrow>
          createErrorResponse env (info_status (categorizeError error))
            (info_message (categorizeError error)) (ctx_reqId c)
            (ErrorType (info_type (categorizeError error))))"
  shows "hget (res_headers res) ''access-control-allow-origin'' = Some (ALLOWED_ORIGIN env)"
    and "hget (res_headers res) ''x-request-id'' = Some (ctx_reqId c)"
    and "res_body res = Relayed b e \<Longrightarrow>
           hget (res_headers res) ''x-processing-mode'' \<in> {Some ''edge'', Some ''background''}
           \<and> hget (res_headers res) ''x-processing-time'' = Some (w_elapsed w)"
proof -
  show "hget (res_headers res) ''access-control-allow-origin'' = Some (ALLOWED_ORIGIN env)"
  proof (cases "snd run")
    case (Inl error)
    then show ?thesis by (simp add: res_def error_response_headers)
  next
    case (Inr r)
    with assms(1) show ?thesis
      using forwardToBackground_response(1) handleInEdge_response(1)
      by (auto simp: res_def)
  qed
  show "hget (res_headers res) ''x-request-id'' = Some (ctx_reqId c)"
  proof (cases "snd run")
    case (Inl error)
    then show ?thesis by (simp add: res_def error_response_headers)
  next
    case (Inr r)
    with assms(1) show ?thesis
      using forwardToBackground_response(2) handleInEdge_response(2)
      by (auto simp: res_def)
  qed
  show "hget (res_headers res) ''x-processing-mode'' \<in> {Some ''edge'', Some ''background''}
           \<and> hget (res_headers res) ''x-processing-time'' = Some (w_elapsed w)"
    if rel: "res_body res = Relayed b e"
  proof (cases "snd run")
    case (Inl error)
    with rel show ?thesis by (simp add: res_def error_response_headers)
  next
    case (Inr r)
    from rel Inr have rb: "res_body r = Relayed b e" by (simp add: res_def)
    from assms(1) show ?thesis
    proof
      assume "run = forwardToBackground env w req c proxy"
      with Inr have "snd (forwardToBackground env w req c proxy) = Inr r" by simp
      from forwardToBackground_response(3) [OF this rb] Inr show ?thesis
        by (simp add: res_def)
    next
      assume "run = handleInEdge env w req c proxy userPath search"
      with Inr have "snd (handleInEdge env w req c proxy userPath search) = Inr r" by simp
      from handleInEdge_response(3) [OF this rb] Inr show ?thesis
        by (simp add: res_def)
    qed
  qed
qed

text \<open>
  Claim C7, as the code has it. Every response of the handler carries the CORS
  allow-origin header with the configured origin; every response but the health check's
  and the \<open>OPTIONS\<close> preflight's carries the correlation id; and a response relayed from
  an upstream or background response carries the correlation id, the processing-mode tag
  and the processing time.
\<close>

theorem handler_response_headers:
  "hget (res_headers (snd (handler env proxies w req))) ''access-control-allow-origin''
     = Some (ALLOWED_ORIGIN env)
   \<and> (\<not> is_health_check req \<and> req_method req \<noteq> ''OPTIONS'' \<longrightarrow>
        hget (res_headers (snd (handler env proxies w req))) ''x-request-id''
          = Some (getRequestId (req_headers req) (w_uuid w)))
   \<and> (\<forall>b e. res_body (snd (handler env proxies w req)) = Relayed b e \<longrightarrow>
        hget (res_headers (snd (handler env proxies w req))) ''x-request-id''
          = Some (getRequestId (req_headers req) (w_uuid w))
        \<and> hget (res_headers (snd (handler env proxies w req))) ''x-processing-mode''
            \<in> {Some ''edge'', Some ''background''}
        \<and> hget (res_headers (snd (handler env proxies w req))) ''x-processing-time''
            = Some (w_elapsed w))"
proof -
  define rid where "rid = getRequestId (req_headers req) (w_uuid w)"
  define segments where "segments = path_segments
      (if startsWith (url_pathname req) ''/gateway''
       then replace_first ''/gateway'' [] (url_pathname req) else url_pathname req)"
  define c where "c = \<lparr>ctx_reqId = rid, ctx_service = hd segments,
      ctx_method = req_method req, ctx_path = url_pathname req\<rparr>"
  have crid: "ctx_reqId c = rid" by (simp add: c_def)
  consider (health) "is_health_check req"
    | (options) "\<not> is_health_check req" "req_method req = ''OPTIONS''"
    | (short) "\<not> is_health_check req" "req_method req \<noteq> ''OPTIONS''" "length segments < 2"
    | (unknown) "\<not> is_health_check req" "req_method req \<noteq> ''OPTIONS''"
        "\<not> length segments < 2" "map_of proxies (hd segments) = None"
    | (dispatch) proxy where "\<not> is_health_check req" "req_method req \<noteq> ''OPTIONS''"
        "\<not> length segments < 2" "map_of proxies (hd segments) = Some proxy"
    by (cases "map_of proxies (hd segments)") auto
  then show ?thesis
  proof cases
    case health
    then have "snd (handler env proxies w req)
        = \<lparr>res_status = 200, res_statusText = [],
           res_headers = hset_all (hset [] ''Content-Type'' ''application/json'')
                           (createCorsHeaders env),
           res_body = HealthJson\<rparr>"
      by (simp add: handler_def Let_def)
    with health show ?thesis by (simp add: cors_over)
  next
    case options
    then have "snd (handler env proxies w req)
        = \<lparr>res_status = 204, res_statusText = [],
           res_headers = createCorsHeaders env, res_body = NoBody\<rparr>"
      by (simp add: handler_def Let_def)
    with options show ?thesis by (simp add: cors_origin)
  next
    case short
    then have "snd (handler env proxies w req)
        = createErrorResponse env 400
            (Text ''Invalid path format. Expected: /gateway/{service}/{path}'') rid
            (AvailableServicesExample (map fst proxies)
               ''/gateway/openai/v1/chat/completions'')"
      by (simp add: handler_def Let_def segments_def rid_def)
    then show ?thesis by (simp add: error_response_headers rid_def)
  next
    case unknown
    then have "snd (handler env proxies w req)
        = createErrorResponse env 404
            (Text (''Service '' @ [CHR 0x27] @ hd segments @ [CHR 0x27] @ '' not found''))
            rid (AvailableServices (map fst proxies))"
      by (simp add: handler_def Let_def segments_def rid_def)
    then show ?thesis by (simp add: error_response_headers rid_def)
  next
    case dispatch
    define run where "run =
       (if shouldForward (shouldForwardToBackground w req proxy c)
        then forwardToBackground env w req c proxy
        else handleInEdge env w req c proxy (sanitizePath (tl segments)) (url_search req))"
    have alt: "run = forwardToBackground env w req c proxy
        \<or> run = handleInEdge env w req c proxy (sanitizePath (tl segments)) (url_search req)"
      by (simp add: run_def)
    have out: "snd (handler env proxies w req)
        = (case snd run of
             Inr r \<Rightarrow> r
           | Inl error \<Rightarrow>
               createErrorResponse env (info_status (categorizeError error))
                 (info_message (categorizeError error)) (ctx_reqId c)
                 (ErrorType (info_type (categorizeError error))))"
      using dispatch
      by (auto simp: handler_def Let_def segments_def [symmetric] rid_def [symmetric]
          c_def [symmetric] run_def crid split: sum.splits)
    have f1: "hget (res_headers (snd (handler env proxies w req))) ''access-control-allow-origin''
        = Some (ALLOWED_ORIGIN env)"
      using dispatch_response(1) [OF alt] by (simp only: out)
    have f2: "hget (res_headers (snd (handler env proxies w req))) ''x-request-id''
        = Some (ctx_reqId c)"
      using dispatch_response(2) [OF alt] by (simp only: out)
    have f3: "hget (res_headers (snd (handler env proxies w req))) ''x-processing-mode''
            \<in> {Some ''edge'', Some ''background''}
        \<and> hget (res_headers (snd (handler env proxies w req))) ''x-processing-time''
            = Some (w_elapsed w)"
      if "res_body (snd (handler env proxies w req)) = Relayed b e" for b e
      using dispatch_response(3) [OF alt, of b e] that by (simp only: out)
    from f1 f2 f3 show ?thesis
      unfolding crid rid_def by blast
  qed
qed

theorem handler_response_headers_witness:
  "hget (res_headers (snd (handler example_env [(''openai'', openai_proxy)] example_world
        embeddings_post))) ''x-request-id''
     = Some ''00000000-0000-4000-8000-000000000000''
   \<and> hget (res_headers (snd (handler example_env [(''openai'', openai_proxy)] example_world
        embeddings_post))) ''x-processing-mode''
     \<in> {Some ''edge'', Some ''background''}
   \<and> hget (res_headers (snd (handler example_env [(''openai'', openai_proxy)] example_world
        embeddings_post))) ''x-processing-time''
     = Some ''12.34''
   \<and> hget (res_headers (snd (handler example_env [(''openai'', openai_proxy)] example_world
        embeddings_post))) ''access-control-allow-origin''
     = Some ''*''"
proof -
  have body: "res_body (snd (handler example_env [(''openai'', openai_proxy)] example_world
      embeddings_post)) = Relayed None None"
    by code_simp
  have rid: "getRequestId (req_headers embeddings_post) (w_uuid example_world)
      = ''00000000-0000-4000-8000-000000000000''"
    by code_simp
  have el: "w_elapsed example_world = ''12.34''" by (simp add: example_world_def)
  have org: "ALLOWED_ORIGIN example_env = ''*''" by (simp add: example_env_def)
  from handler_response_headers [of example_env "[(''openai'', openai_proxy)]" example_world
      embeddings_post] body
  show ?thesis unfolding rid el org by blast
qed

text \<open>
  The claim as stated fails on the \<open>OPTIONS\<close> preflight, whose response has the CORS
  headers only.
\<close>

theorem preflight_headers_counterexample:
  "hget (res_headers (snd (handler example_env [(''openai'', openai_proxy)] example_world
        options_request))) ''x-request-id'' = None
   \<and> hget (res_headers (snd (handler example_env [(''openai'', openai_proxy)] example_world
        options_request))) ''x-processing-mode'' = None
   \<and> hget (res_headers (snd (handler example_env [(''openai'', openai_proxy)] example_world
        options_request))) ''x-processing-time'' = None"
  by code_simp

subsection \<open>Deadlines\<close>

lemma retry_loop_fetches:
  "Fetch r \<in> set (fst (retry_loop maxR q w a le)) \<Longrightarrow> r = q"
proof (induction "nat (maxR + 1 - int a)" arbitrary: a le rule: less_induct)
  case less
  from retry_loop_step [of a maxR q w le]
  consider "fst (retry_loop maxR q w a le) = []"
    | "fst (retry_loop maxR q w a le) = [Fetch q]"
    | le' where "int a < maxR" "retry_loop maxR q w a le
          = prepend [Fetch q, Delay (backoffDelay a (w_random w a))]
              (retry_loop maxR q w (Suc a) le')"
    by blast
  then show ?case
  proof cases
    case 1
    with less.prems show ?thesis by simp
  next
    case 2
    with less.prems show ?thesis by simp
  next
    case 3
    have m: "nat (maxR + 1 - int (Suc a)) < nat (maxR + 1 - int a)" using 3(1) by simp
    from less.prems 3(2)
    have "r = q \<or> Fetch r \<in> set (fst (retry_loop maxR q w (Suc a) le'))"
      by (auto simp: prepend_def)
    with less.hyps [OF m] show ?thesis by blast
  qed
qed

lemma fetchWithRetry_fetches:
  "Fetch r \<in> set (fst (fetchWithRetry q maxR ms w)) \<Longrightarrow> r = q"
  using retry_loop_fetches [of r maxR q w 0 None]
  by (auto simp: fetchWithRetry_def Let_def split: if_splits)

lemma fetchWithRetry_first:
  "\<exists>evs. fst (fetchWithRetry q maxR ms w) = Fetch q # evs"
proof (cases "maxR \<le> 0 \<or> out_method q
    \<notin> set (case ms of None \<Rightarrow> [''GET'', ''HEAD'', ''OPTIONS''] | Some ms \<Rightarrow> ms)")
  case True
  then show ?thesis by (simp add: fetchWithRetry_def Let_def)
next
  case False
  then have run: "fetchWithRetry q maxR ms w = retry_loop maxR q w 0 None"
    by (simp add: fetchWithRetry_def Let_def)
  from False have "0 < maxR" by simp
  with retry_loop_step [of 0 maxR q w None] show ?thesis
    unfolding run by (auto simp: prepend_def)
qed

lemma handleInEdge_calls:
  "\<exists>q evs. out_deadline q = edge_deadline env proxy
     \<and> fst (handleInEdge env w req c proxy userPath search) = Upstream (Fetch q) # map Upstream evs
     \<and> (\<forall>r. Fetch r \<in> set evs \<longrightarrow> r = q)"
proof -
  define q where "q = \<lparr>out_method = ctx_method c,
      out_url = buildUpstreamURL (host proxy) (basePath proxy) userPath search,
      out_headers = buildForwardHeaders (req_headers req) proxy,
      out_deadline = edge_deadline env proxy\<rparr>"
  define maxR where "maxR = (if ENABLE_RETRY env
      then (case maxRetries proxy of None \<Rightarrow> 1 | Some n \<Rightarrow> n) else 0)"
  have calls: "fst (handleInEdge env w req c proxy userPath search)
      = map Upstream (fst (fetchWithRetry q maxR (retryableMethods proxy) w))"
    by (simp add: handleInEdge_def Let_def q_def maxR_def)
  obtain evs where evs: "fst (fetchWithRetry q maxR (retryableMethods proxy) w) = Fetch q # evs"
    using fetchWithRetry_first by blast
  have "\<forall>r. Fetch r \<in> set evs \<longrightarrow> r = q"
    using fetchWithRetry_fetches [of _ q maxR "retryableMethods proxy" w] evs by simp
  moreover have "out_deadline q = edge_deadline env proxy" by (simp add: q_def)
  ultimately show ?thesis using calls evs by auto
qed

lemma handleInEdge_deadline:
  "Upstream (Fetch r) \<in> set (fst (handleInEdge env w req c proxy userPath search)) \<Longrightarrow>
   out_deadline r = edge_deadline env proxy"
  using handleInEdge_calls [of env proxy w req c userPath search] by auto

lemma forwardToBackground_calls:
  "\<exists>m u rest. fst (forwardToBackground env w req c proxy) = BackgroundFetch m u 20000 # rest
     \<and> (rest = [] \<or> (\<exists>userPath search.
           rest = fst (handleInEdge env w req c proxy userPath search)))"
  by (auto simp: forwardToBackground_def Let_def background_deadline_def
      split: outcome.splits)

text \<open>
  Claim C6, as the code has it. The forwarding call to the background function is the
  first call of \<open>forwardToBackground\<close> and runs under the fixed deadline of 20000 ms,
  whatever the provider profile and the configuration are; every outbound call of the
  fast path, also in a fallback after the forwarding call, runs under the fast-path
  deadline \<open>min(proxy.timeout || DEFAULT_TIMEOUT, 20000)\<close>; so the forwarding deadline
  is at least the fast-path deadline and equals the fast-path ceiling.
\<close>

theorem forwarding_deadline_is_fast_path_ceiling:
  "(\<exists>m u rest. fst (forwardToBackground env w req c proxy) = BackgroundFetch m u 20000 # rest)
   \<and> (\<forall>r. Upstream (Fetch r) \<in> set (fst (handleInEdge env w req c proxy userPath search))
          \<longrightarrow> out_deadline r = min (js_or_num (timeout proxy) (DEFAULT_TIMEOUT env)) 20000)
   \<and> (\<forall>r. Upstream (Fetch r) \<in> set (fst (forwardToBackground env w req c proxy))
          \<longrightarrow> out_deadline r = min (js_or_num (timeout proxy) (DEFAULT_TIMEOUT env)) 20000)
   \<and> edge_deadline env proxy = min (js_or_num (timeout proxy) (DEFAULT_TIMEOUT env)) 20000
   \<and> edge_deadline env proxy \<le> background_deadline
   \<and> background_deadline = 20000"
proof -
  have a: "\<exists>m u rest. fst (forwardToBackground env w req c proxy)
      = BackgroundFetch m u 20000 # rest"
    using forwardToBackground_calls [of env w req c proxy] by blast
  have b: "out_deadline r = min (js_or_num (timeout proxy) (DEFAULT_TIMEOUT env)) 20000"
    if "Upstream (Fetch r) \<in> set (fst (handleInEdge env w req c proxy userPath search))"
    for r userPath search
    using handleInEdge_deadline [OF that] by (simp add: edge_deadline_def)
  have c: "out_deadline r = min (js_or_num (timeout proxy) (DEFAULT_TIMEOUT env)) 20000"
    if "Upstream (Fetch r) \<in> set (fst (forwardToBackground env w req c proxy))" for r
  proof -
    from forwardToBackground_calls [of env w req c proxy]
    obtain m u rest where f: "fst (forwardToBackground env w req c proxy)
        = BackgroundFetch m u 20000 # rest"
      and r: "rest = [] \<or> (\<exists>userPath search.
           rest = fst (handleInEdge env w req c proxy userPath search))"
      by blast
    from that f have "Upstream (Fetch r) \<in> set rest" by simp
    with r b show ?thesis by auto
  qed
  have d: "edge_deadline env proxy \<le> background_deadline"
    by (simp add: edge_deadline_def background_deadline_def)
  from a b c d show ?thesis
    by (simp add: edge_deadline_def background_deadline_def)
qed

theorem forwarding_deadline_is_fast_path_ceiling_witness:
  "out_deadline
     \<lparr>out_method = ''POST'', out_url = ''https://api.openai.com/v1/embeddings'',
      out_headers = [(''content-type'', ''application/json''), (''content-length'', ''10''),
                     (''user-agent'', ''Mozilla/5.0 (compatible; API Gateway/1.0)'')],
      out_deadline = 20000\<rparr>
     = min (js_or_num (timeout openai_proxy) (DEFAULT_TIMEOUT example_env)) 20000
   \<and> edge_deadline example_env openai_proxy \<le> background_deadline"
proof -
  let ?q = "\<lparr>out_method = ''POST'', out_url = ''https://api.openai.com/v1/embeddings'',
      out_headers = [(''content-type'', ''application/json''), (''content-length'', ''10''),
                     (''user-agent'', ''Mozilla/5.0 (compatible; API Gateway/1.0)'')],
      out_deadline = 20000\<rparr>"
  have "hd (fst (handleInEdge example_env example_world embeddings_post embeddings_context
      openai_proxy ''v1/embeddings'' [])) = Upstream (Fetch ?q)"
    by code_simp
  moreover have "fst (handleInEdge example_env example_world embeddings_post embeddings_context
      openai_proxy ''v1/embeddings'' []) \<noteq> []"
    using handleInEdge_calls [of example_env openai_proxy example_world embeddings_post
        embeddings_context "''v1/embeddings''" "[]"] by auto
  ultimately have h: "Upstream (Fetch ?q) \<in> set (fst (handleInEdge example_env example_world
      embeddings_post embeddings_context openai_proxy ''v1/embeddings'' []))"
    by (metis hd_in_set)
  from forwarding_deadline_is_fast_path_ceiling [of example_env example_world embeddings_post
      embeddings_context openai_proxy "''v1/embeddings''" "[]"] h
  show ?thesis by blast
qed

text \<open>
  The claim as stated fails: for the built-in \<open>openai\<close> entry the fast-path deadline is
  20000 ms, and the forwarding call of a request dispatched to the long path runs under
  20000 ms as well, which is not larger.
\<close>

theorem forwarding_deadline_counterexample:
  "fst (handler example_env [(''openai'', openai_proxy)] aborted_world embeddings_post)
     = [BackgroundFetch ''POST''
          ''https://gw.example.com/api/background/openai/v1/embeddings'' 20000]
   \<and> edge_deadline example_env openai_proxy = 20000
   \<and> \<not> (20000 > edge_deadline example_env openai_proxy)"
  by code_simp

subsection \<open>Fallback\<close>

lemma forwardToBackground_fallback:
  assumes "w_background w = Rejects error" and "err_name error \<noteq> ''AbortError''"
    and "allowFallback proxy \<noteq> Some False" and "ENABLE_FALLBACK env"
  shows "forwardToBackground env w req c proxy
     = (BackgroundFetch (ctx_method c)
          (url_protocol req @ ''//'' @ url_host req @ ''/api/background''
             @ replace_first ''/gateway'' [] (url_pathname req) @ url_search req)
          20000
        # fst (handleInEdge env w req c proxy
                 (sanitizePath (drop 1 (path_segments
                    (replace_first ''/gateway'' [] (url_pathname req)))))
                 (url_search req)),
        snd (handleInEdge env w req c proxy
               (sanitizePath (drop 1 (path_segments
                  (replace_first ''/gateway'' [] (url_pathname req)))))
               (url_search req)))"
  using assms by (simp add: forwardToBackground_def Let_def background_deadline_def)

lemma forwardToBackground_no_fallback:
  assumes "w_background w = Rejects error" and "err_name error \<noteq> ''AbortError''"
    and "\<not> (allowFallback proxy \<noteq> Some False \<and> ENABLE_FALLBACK env)"
  shows "forwardToBackground env w req c proxy
     = ([BackgroundFetch (ctx_method c)
           (url_protocol req @ ''//'' @ url_host req @ ''/api/background''
              @ replace_first ''/gateway'' [] (url_pathname req) @ url_search req)
           20000],
        Inr (createErrorResponse env 500 (Text ''Background processing failed'')
               (ctx_reqId c) NoDetail))"
  using assms by (auto simp: forwardToBackground_def Let_def background_deadline_def)

lemma forwardToBackground_timeout:
  assumes "w_background w = Rejects error" and "err_name error = ''AbortError''"
  shows "forwardToBackground env w req c proxy
     = ([BackgroundFetch (ctx_method c)
           (url_protocol req @ ''//'' @ url_host req @ ''/api/background''
              @ replace_first ''/gateway'' [] (url_pathname req) @ url_search req)
           20000],
        Inr (createErrorResponse env 504 (Text ''Background processing timeout'')
               (ctx_reqId c) NoDetail))"
  using assms by (simp add: forwardToBackground_def Let_def background_deadline_def)

text \<open>
  Claim C1, as the code has it. When the forwarding call fails with an error other than
  an abort (a network error, any other exception), the provider profile permits fallback
  and fallback is enabled, \<open>forwardToBackground\<close> runs the same request through
  \<open>handleInEdge\<close> and returns its outcome: the calls after the forwarding call are the
  fast path's, the result is the fast path's. When the forwarding call is aborted by its
  timer, the result is the 504 response and no fast-path call is made, whatever the
  fallback settings are.
\<close>

theorem fallback_reruns_fast_path:
  assumes "w_background w = Rejects error"
  shows "(err_name error \<noteq> ''AbortError'' \<and> allowFallback proxy \<noteq> Some False
            \<and> ENABLE_FALLBACK env \<longrightarrow>
          snd (forwardToBackground env w req c proxy)
            = snd (handleInEdge env w req c proxy
                     (sanitizePath (drop 1 (path_segments
                        (replace_first ''/gateway'' [] (url_pathname req)))))
                     (url_search req))
          \<and> tl (fst (forwardToBackground env w req c proxy))
            = fst (handleInEdge env w req c proxy
                     (sanitizePath (drop 1 (path_segments
                        (replace_first ''/gateway'' [] (url_pathname req)))))
                     (url_search req)))
     \<and> (err_name error = ''AbortError'' \<longrightarrow>
          snd (forwardToBackground env w req c proxy)
            = Inr (createErrorResponse env 504 (Text ''Background processing timeout'')
                     (ctx_reqId c) NoDetail)
          \<and> tl (fst (forwardToBackground env w req c proxy)) = [])"
proof -
  have a: "snd (forwardToBackground env w req c proxy)
            = snd (handleInEdge env w req c proxy
                     (sanitizePath (drop 1 (path_segments
                        (replace_first ''/gateway'' [] (url_pathname req)))))
                     (url_search req))
          \<and> tl (fst (forwardToBackground env w req c proxy))
            = fst (handleInEdge env w req c proxy
                     (sanitizePath (drop 1 (path_segments
                        (replace_first ''/gateway'' [] (url_pathname req)))))
                     (url_search req))"
    if "err_name error \<noteq> ''AbortError''" "allowFallback proxy \<noteq> Some False"
      "ENABLE_FALLBACK env"
    by (simp add: forwardToBackground_fallback [OF assms that])
  have b: "snd (forwardToBackground env w req c proxy)
            = Inr (createErrorResponse env 504 (Text ''Background processing timeout'')
                     (ctx_reqId c) NoDetail)
          \<and> tl (fst (forwardToBackground env w req c proxy)) = []"
    if "err_name error = ''AbortError''"
    by (simp add: forwardToBackground_timeout [OF assms that])
  from a b show ?thesis by blast
qed

theorem fallback_reruns_fast_path_witness:
  "snd (forwardToBackground example_env healthy_world embeddings_post embeddings_context
          (openai_proxy\<lparr>allowFallback := Some True\<rparr>))
     = snd (handleInEdge example_env healthy_world embeddings_post embeddings_context
          (openai_proxy\<lparr>allowFallback := Some True\<rparr>) ''v1/embeddings'' [])
   \<and> res_status (projr (snd (handleInEdge example_env healthy_world embeddings_post
          embeddings_context (openai_proxy\<lparr>allowFallback := Some True\<rparr>)
          ''v1/embeddings'' []))) = 200
   \<and> snd (forwardToBackground example_env aborted_world embeddings_post embeddings_context
          (openai_proxy\<lparr>allowFallback := Some True\<rparr>))
     = Inr (createErrorResponse example_env 504 (Text ''Background processing timeout'')
              ''req-1'' NoDetail)"
proof -
  have bg: "w_background healthy_world = Rejects (JsError ''TypeError'' ''fetch failed'')"
    by (simp add: healthy_world_def example_world_def)
  have h: "err_name (JsError ''TypeError'' ''fetch failed'') \<noteq> ''AbortError''
      \<and> allowFallback (openai_proxy\<lparr>allowFallback := Some True\<rparr>) \<noteq> Some False
      \<and> ENABLE_FALLBACK example_env"
    by (simp add: example_env_def)
  have p: "sanitizePath (drop 1 (path_segments
      (replace_first ''/gateway'' [] (url_pathname embeddings_post)))) = ''v1/embeddings''"
    by code_simp
  have s: "url_search embeddings_post = []"
    by (simp add: embeddings_post_def example_request_def)
  have r: "res_status (projr (snd (handleInEdge example_env healthy_world embeddings_post
          embeddings_context (openai_proxy\<lparr>allowFallback := Some True\<rparr>)
          ''v1/embeddings'' []))) = 200"
    by code_simp
  have ab: "w_background aborted_world
      = Rejects (JsError ''AbortError'' ''The operation was aborted'')"
    by (simp add: aborted_world_def)
  have an: "err_name (JsError ''AbortError'' ''The operation was aborted'') = ''AbortError''"
    by simp
  have rid: "ctx_reqId embeddings_context = ''req-1''" by (simp add: embeddings_context_def)
  from fallback_reruns_fast_path [OF bg, of "openai_proxy\<lparr>allowFallback := Some True\<rparr>"
      example_env embeddings_post embeddings_context] h
  have first: "snd (forwardToBackground example_env healthy_world embeddings_post
          embeddings_context (openai_proxy\<lparr>allowFallback := Some True\<rparr>))
     = snd (handleInEdge example_env healthy_world embeddings_post embeddings_context
          (openai_proxy\<lparr>allowFallback := Some True\<rparr>) ''v1/embeddings'' [])"
    unfolding p s by blast
  from fallback_reruns_fast_path [OF ab, of "openai_proxy\<lparr>allowFallback := Some True\<rparr>"
      example_env embeddings_post embeddings_context] an
  have second: "snd (forwardToBackground example_env aborted_world embeddings_post
          embeddings_context (openai_proxy\<lparr>allowFallback := Some True\<rparr>))
     = Inr (createErrorResponse example_env 504 (Text ''Background processing timeout'')
              ''req-1'' NoDetail)"
    unfolding rid by blast
  from first r second show ?thesis by blast
qed

text \<open>
  The claim as stated fails on a timeout: with fallback permitted and enabled, a
  forwarding call aborted by its timer is answered with the 504 error, and no fast-path
  call is made.
\<close>

theorem timeout_not_fallen_back_counterexample:
  "ENABLE_FALLBACK example_env
   \<and> allowFallback (openai_proxy\<lparr>allowFallback := Some True\<rparr>) = Some True
   \<and> handler example_env [(''openai'', openai_proxy\<lparr>allowFallback := Some True\<rparr>)]
       aborted_world embeddings_post
     = ([BackgroundFetch ''POST''
           ''https://gw.example.com/api/background/openai/v1/embeddings'' 20000],
        createErrorResponse example_env 504 (Text ''Background processing timeout'')
          ''00000000-0000-4000-8000-000000000000'' NoDetail)"
  by code_simp

text \<open>
  Claim C9. After a failure of the forwarding call that is not an abort, a fast-path
  call is made exactly when fallback is enabled process-wide and the profile's
  \<open>allowFallback\<close> is not \<open>false\<close>; otherwise the 500 response is returned and the
  forwarding call is the only call. In particular a profile without the field falls back.
\<close>

theorem fallback_decision:
  assumes "w_background w = Rejects error" and "err_name error \<noteq> ''AbortError''"
  shows "((\<exists>ev. Upstream ev \<in> set (fst (forwardToBackground env w req c proxy)))
            \<longleftrightarrow> allowFallback proxy \<noteq> Some False \<and> ENABLE_FALLBACK env)
     \<and> (allowFallback proxy = None \<and> ENABLE_FALLBACK env \<longrightarrow>
          (\<exists>ev. Upstream ev \<in> set (fst (forwardToBackground env w req c proxy)))
          \<and> snd (forwardToBackground env w req c proxy)
              = snd (handleInEdge env w req c proxy
                       (sanitizePath (drop 1 (path_segments
                          (replace_first ''/gateway'' [] (url_pathname req)))))
                       (url_search req)))
     \<and> (\<not> (allowFallback proxy \<noteq> Some False \<and> ENABLE_FALLBACK env) \<longrightarrow>
          snd (forwardToBackground env w req c proxy)
            = Inr (createErrorResponse env 500 (Text ''Background processing failed'')
                     (ctx_reqId c) NoDetail))"
proof (cases "allowFallback proxy \<noteq> Some False \<and> ENABLE_FALLBACK env")
  case True
  then have t: "allowFallback proxy \<noteq> Some False" "ENABLE_FALLBACK env" by simp_all
  note run = forwardToBackground_fallback [OF assms t, of req c]
  from handleInEdge_calls [of env proxy w req c
      "sanitizePath (drop 1 (path_segments (replace_first ''/gateway'' [] (url_pathname req))))"
      "url_search req"]
  have "\<exists>ev. Upstream ev \<in> set (fst (forwardToBackground env w req c proxy))"
    unfolding run by auto
  with True show ?thesis by (simp add: run)
next
  case False
  note run = forwardToBackground_no_fallback [OF assms False, of req c]
  have "\<not> (\<exists>ev. Upstream ev \<in> set (fst (forwardToBackground env w req c proxy)))"
    unfolding run by simp
  with False show ?thesis unfolding run by auto
qed

theorem fallback_decision_witness:
  "(\<exists>ev. Upstream ev \<in> set (fst (forwardToBackground example_env example_world
       embeddings_post embeddings_context openai_proxy)))
   \<and> allowFallback openai_proxy = None
   \<and> snd (forwardToBackground example_env example_world embeddings_post embeddings_context
          (openai_proxy\<lparr>allowFallback := Some False\<rparr>))
     = Inr (createErrorResponse example_env 500 (Text ''Background processing failed'')
              ''req-1'' NoDetail)"
proof -
  have bg: "w_background example_world = Rejects (JsError ''TypeError'' ''fetch failed'')"
    by (simp add: example_world_def)
  have ne: "err_name (JsError ''TypeError'' ''fetch failed'') \<noteq> ''AbortError''" by simp
  have h: "allowFallback openai_proxy = None \<and> ENABLE_FALLBACK example_env"
    by (simp add: openai_proxy_def example_env_def)
  have n: "\<not> (allowFallback (openai_proxy\<lparr>allowFallback := Some False\<rparr>) \<noteq> Some False
      \<and> ENABLE_FALLBACK example_env)"
    by simp
  have rid: "ctx_reqId embeddings_context = ''req-1''" by (simp add: embeddings_context_def)
  from fallback_decision [OF bg ne, of example_env embeddings_post embeddings_context
      openai_proxy] h
  have a: "\<exists>ev. Upstream ev \<in> set (fst (forwardToBackground example_env example_world
       embeddings_post embeddings_context openai_proxy))"
    by blast
  from fallback_decision [OF bg ne, of example_env embeddings_post embeddings_context
      "openai_proxy\<lparr>allowFallback := Some False\<rparr>"] n
  have b: "snd (forwardToBackground example_env example_world embeddings_post
          embeddings_context (openai_proxy\<lparr>allowFallback := Some False\<rparr>))
     = Inr (createErrorResponse example_env 500 (Text ''Background processing failed'')
              ''req-1'' NoDetail)"
    unfolding rid by blast
  from a h b show ?thesis by blast
qed

end
